theory Spec2Isabelle
  imports Complex_Main
begin

section \<open>Numbers, vectors and the vector utilities the controller consumes\<close>

text \<open>
  The controller computes with JavaScript numbers. They are modelled as \<^typ>\<open>real\<close>: the
  formulas are the ones of the source, rounding is not modelled. A \<open>Vector3\<close> and a
  \<open>Point\<close> are both an object with fields \<open>x\<close>, \<open>y\<close>, \<open>z\<close>; every point of
  the controller lives in the one reference the map has, so a point is its coordinates.
\<close>

record vec3 =
  x :: real
  y :: real
  z :: real

definition vec :: "real \<Rightarrow> real \<Rightarrow> real \<Rightarrow> vec3" where
  "vec a b c = \<lparr>x = a, y = b, z = c\<rparr>"

text \<open>
  \<open>add\<close>, \<open>sub\<close>, \<open>scale\<close>, \<open>cross\<close>, \<open>length\<close>, \<open>distance\<close> and \<open>normalize\<close>
  are imported by the controller from the vector utilities of the map toolkit; they have
  their usual meaning. (\<open>normalize\<close> divides by the length: on the zero vector
  JavaScript yields NaN components, HOL yields zero; no theorem below relies on that case.)
\<close>

definition add :: "vec3 \<Rightarrow> vec3 \<Rightarrow> vec3" where
  "add a b = vec (x a + x b) (y a + y b) (z a + z b)"

definition sub :: "vec3 \<Rightarrow> vec3 \<Rightarrow> vec3" where
  "sub a b = vec (x a - x b) (y a - y b) (z a - z b)"

definition scale :: "vec3 \<Rightarrow> real \<Rightarrow> vec3" where
  "scale a k = vec (x a * k) (y a * k) (z a * k)"

definition cross :: "vec3 \<Rightarrow> vec3 \<Rightarrow> vec3" where
  "cross a b = vec (y a * z b - z a * y b) (z a * x b - x a * z b) (x a * y b - y a * x b)"

definition length_v :: "vec3 \<Rightarrow> real" where
  "length_v a = sqrt (x a * x a + y a * y a + z a * z a)"

definition distance :: "vec3 \<Rightarrow> vec3 \<Rightarrow> real" where
  "distance a b = length_v (sub a b)"

definition normalize :: "vec3 \<Rightarrow> vec3" where
  "normalize a = vec (x a / length_v a) (y a / length_v a) (z a / length_v a)"

text \<open>\<open>GEODESY.interpolate\<close> of a Cartesian geodesy: the point at fraction \<open>t\<close> of the segment.\<close>

definition interpolate :: "vec3 \<Rightarrow> vec3 \<Rightarrow> real \<Rightarrow> vec3" where
  "interpolate p q t = add p (scale (sub q p) t)"

section \<open>The controller state\<close>

datatype CreationState =
  IDLE | CORNER_DEFINED | WIDTH_DEFINED | PLANE_DEFINED | VOLUME_DEFINED
  | FACE_RESIZING | RESIZE_ROTATE

text \<open>What \<open>calculateVolume\<close> returns, and what every notification carries.\<close>

record snapshot =
  s_width :: real
  s_depth :: real
  s_height :: real
  s_area :: real
  s_volume :: real
  s_refinedVolume :: real

datatype notification =
  Update snapshot bool
  | Ready snapshot bool
  | End snapshot bool

datatype error = IllegalState | PlaneError | BoxError | TypeError

text \<open>
  The fields of \<open>VolumeMeasureController\<close> that the modelled methods read or write.
  \<open>mapPresent\<close> is \<open>this.map\<close> being set (the controller is active on a map),
  \<open>geoHandleSupport\<close> is \<open>this._geoHandleSupport !== null\<close>, and \<open>emitted\<close> is the
  sequence of notifications handed to \<open>_eventedSupport.emit\<close>, oldest first.
\<close>

record controller =
  mapPresent :: bool
  shiftPressed :: bool
  state :: CreationState
  firstCorner :: "vec3 option"
  orientation :: "vec3 option"
  orientationComplement :: "vec3 option"
  width :: real
  depth :: real
  height :: real
  emptyVolumes :: "real list list"
  abort :: bool
  success :: bool
  refinedVolumeCalculation :: real
  resizedFaceIndex :: int
  geoHandleSupport :: bool
  lastRotation :: real
  rotating :: bool
  emitted :: "notification list"

definition RefinedGridSize :: nat where
  "RefinedGridSize = 24"

definition MAX_SIZE :: real where
  "MAX_SIZE = 10000"

definition canRefine :: "controller \<Rightarrow> bool" where
  "canRefine c = (state c = VOLUME_DEFINED)"

definition calculateVolume :: "controller \<Rightarrow> snapshot" where
  "calculateVolume c =
     (let w = \<bar>width c\<bar>; h = \<bar>height c\<bar>; d = \<bar>depth c\<bar>;
          area = w * d; volume = area * h
      in \<lparr>s_width = w, s_depth = d, s_height = h, s_area = area, s_volume = volume,
          s_refinedVolume = refinedVolumeCalculation c\<rparr>)"

definition createEvent :: "controller \<Rightarrow> snapshot \<times> bool" where
  "createEvent c = (calculateVolume c, canRefine c)"

definition emitMeasurementUpdate :: "controller \<Rightarrow> controller" where
  "emitMeasurementUpdate c =
     c\<lparr>emitted := emitted c @ [Update (fst (createEvent c)) (snd (createEvent c))]\<rparr>"

section \<open>Collaborators outside the controller\<close>

text \<open>
  An oriented box is built by the map toolkit from a geolocated transformation (anchor and
  azimuth), an offset and a size; the controller reads it back only through its eight
  corner points and the focus points of its six face polygons.
\<close>

record orientedBox =
  b_anchor :: vec3
  b_azimuth :: real
  b_offset :: vec3
  b_size :: vec3

record corners =
  cp0 :: vec3
  cp1 :: vec3
  cp2 :: vec3
  cp3 :: vec3
  cp4 :: vec3
  cp5 :: vec3
  cp6 :: vec3
  cp7 :: vec3

datatype HandleEventResult = EVENT_HANDLED | EVENT_IGNORED

text \<open>
  The services the controller calls and does not implement, taken as parameters:
  \<^item> \<open>northAngle eye v\<close>: \<open>angle(cam.forward, v, cam.up)\<close> for the north-facing camera
    \<open>cam\<close> that \<open>lookFrom\<close> places at \<open>eye\<close>;
  \<^item> \<open>getCornerPoints\<close>, \<open>faceFocusPoints\<close>: \<open>box.getCornerPoints()\<close> and the focus
    points of \<open>createFacePolygons(box)\<close>, in order;
  \<^item> \<open>surfaceBelow p\<close>: once the camera has been moved to \<open>p\<close>, the closest-surface
    point under the centre of the view, \<open>None\<close> when the transformation throws;
  \<^item> \<open>abortClicked n\<close>: whether the user presses the abort button of the blocking banner
    while the controller awaits sample number \<open>n\<close> (counted by the \<open>clock\<close> below);
  \<^item> \<open>rayPlane viewPoint normal point\<close>: \<open>rayPlaneIntersection\<close> of the pointing ray
    through \<open>viewPoint\<close> with the plane, \<open>None\<close> for no intersection;
  \<^item> \<open>cameraForward\<close>, \<open>cameraUp\<close>: the camera axes;
  \<^item> \<open>rotateAroundAxis\<close>, \<open>rotatePointAroundLine\<close>: the rotation utilities.
\<close>

record scene =
  northAngle :: "vec3 \<Rightarrow> vec3 \<Rightarrow> real"
  getCornerPoints :: "orientedBox \<Rightarrow> corners"
  faceFocusPoints :: "orientedBox \<Rightarrow> vec3 list"
  surfaceBelow :: "vec3 \<Rightarrow> vec3 option"
  abortClicked :: "nat \<Rightarrow> bool"
  rayPlane :: "vec3 \<Rightarrow> vec3 \<Rightarrow> vec3 \<Rightarrow> vec3 option"
  cameraForward :: vec3
  cameraUp :: vec3
  rotateAroundAxis :: "vec3 \<Rightarrow> vec3 \<Rightarrow> real \<Rightarrow> vec3"
  rotatePointAroundLine :: "vec3 \<Rightarrow> vec3 \<Rightarrow> vec3 \<Rightarrow> real \<Rightarrow> vec3"

text \<open>\<open>clamp\<close> and \<open>distanceAlongDirection\<close> of the toolkit, with their usual meaning.\<close>

definition clamp :: "real \<Rightarrow> real \<Rightarrow> real \<Rightarrow> real" where
  "clamp v lo hi = max lo (min hi v)"

definition dot :: "vec3 \<Rightarrow> vec3 \<Rightarrow> real" where
  "dot a b = x a * x b + y a * y b + z a * z b"

definition distanceAlongDirection :: "vec3 \<Rightarrow> vec3 \<Rightarrow> vec3 \<Rightarrow> real" where
  "distanceAlongDirection p origin dir = dot (sub p origin) (normalize dir)"

section \<open>Box parameters and shapes\<close>

text \<open>\<open>createPlane\<close>: the four corners of the base rectangle, or the error it throws.\<close>

definition createPlane :: "controller \<Rightarrow> error + vec3 list" where
  "createPlane c =
     (case (firstCorner c, orientation c, orientationComplement c) of
        (Some f, Some ori, Some oc) \<Rightarrow>
          if \<not> mapPresent c then Inl PlaneError
          else Inr [f,
                    add f (scale ori (width c)),
                    add f (add (scale ori (width c)) (scale oc (depth c))),
                    add f (scale oc (depth c))]
      | _ \<Rightarrow> Inl PlaneError)"

text \<open>\<open>createBox\<close>, that is \<open>createBoxFromParameters\<close> at the controller's own fields.\<close>

definition createBox :: "scene \<Rightarrow> controller \<Rightarrow> error + orientedBox" where
  "createBox sc c =
     (case (firstCorner c, orientation c, orientationComplement c) of
        (Some f, Some ori, Some oc) \<Rightarrow>
          if \<not> mapPresent c then Inl BoxError
          else
            let azimuth0 = - northAngle sc f ori - 90;
                azimuth = (if depth c > 0 then azimuth0 + 90 else azimuth0)
            in Inr \<lparr>b_anchor = f,
                    b_azimuth = azimuth,
                    b_offset = vec 0 0 (if height c < 0 \<or> shiftPressed c then - \<bar>height c\<bar> else 0),
                    b_size = vec (if depth c < 0 then width c else \<bar>depth c\<bar>)
                                 (if depth c < 0 then \<bar>depth c\<bar> else width c)
                                 \<bar>if shiftPressed c then height c * 2 else height c\<bar>\<rparr>
      | _ \<Rightarrow> Inl BoxError)"

text \<open>
  \<open>standardizePlane\<close>. With a negative depth it reads \<open>this.map.reference\<close> and the three
  vectors: an absent one makes JavaScript throw a TypeError.
\<close>

definition standardizePlane :: "controller \<Rightarrow> error + controller" where
  "standardizePlane c =
     (if depth c < 0 then
        (if \<not> mapPresent c then Inl TypeError
         else case (firstCorner c, orientation c, orientationComplement c) of
           (Some f, Some ori, Some oc) \<Rightarrow>
             let fourthCorner = add f (scale oc (depth c));
                 worldPoint = add f (add (scale ori (width c)) (scale oc (depth c)));
                 ori' = normalize (sub worldPoint fourthCorner)
             in Inr (c\<lparr>firstCorner := Some fourthCorner,
                       depth := \<bar>depth c\<bar>,
                       orientation := Some ori',
                       orientationComplement := Some (normalize (cross ori' fourthCorner))\<rparr>)
         | _ \<Rightarrow> Inl TypeError)
      else Inr c)"

record boxParameters =
  p_firstCorner :: vec3
  p_width :: real
  p_depth :: real
  p_height :: real
  p_orientation :: vec3
  p_orientationComplement :: vec3

definition extractBoxParameters :: "scene \<Rightarrow> orientedBox \<Rightarrow> boxParameters" where
  "extractBoxParameters sc box =
     (let c = getCornerPoints sc box;
          fc = cp7 c;
          widthVec = sub (cp5 c) fc;
          depthVec = sub (cp3 c) fc;
          heightVec = sub (cp6 c) fc;
          ori = normalize (sub (cp5 c) fc);
          oc = normalize (cross ori fc)
      in \<lparr>p_firstCorner = fc,
          p_width = \<bar>length_v widthVec\<bar>,
          p_depth = \<bar>length_v depthVec\<bar>,
          p_height = length_v heightVec,
          p_orientation = ori,
          p_orientationComplement = oc\<rparr>)"

definition initializeBox :: "scene \<Rightarrow> orientedBox \<Rightarrow> controller \<Rightarrow> controller" where
  "initializeBox sc box c =
     (let inputs = extractBoxParameters sc box
      in c\<lparr>firstCorner := Some (p_firstCorner inputs),
           orientation := Some (p_orientation inputs),
           orientationComplement := Some (p_orientationComplement inputs),
           width := p_width inputs,
           depth := p_depth inputs,
           height := p_height inputs,
           state := VOLUME_DEFINED\<rparr>)"


section \<open>Rotation and translation\<close>

text \<open>
  \<open>applyRotation\<close> and \<open>applyTranslation\<close>, the listeners of the handle support. Both
  return early when a vector is missing; both call \<open>createPlane\<close>, which throws without
  a map. Moving the handles and \<open>invalidate\<close> write no field of the controller.
\<close>

definition addArray :: "vec3 list \<Rightarrow> vec3" where
  "addArray vs = foldl add (vec 0 0 0) vs"

definition applyRotation :: "scene \<Rightarrow> real \<Rightarrow> controller \<Rightarrow> error + controller" where
  "applyRotation sc absoluteRotation c =
     (case (orientation c, orientationComplement c, firstCorner c) of
        (Some ori, Some oc, Some f) \<Rightarrow>
          let c1 = (if \<not> rotating c then c\<lparr>rotating := True, lastRotation := 0\<rparr> else c);
              delta = lastRotation c1 - absoluteRotation
          in (case createPlane c1 of
                Inl e \<Rightarrow> Inl e
              | Inr plane \<Rightarrow>
                  let center = scale (addArray plane) (1 / real (length plane));
                      planeNormal = cross ori oc;
                      point = rotatePointAroundLine sc f center planeNormal (- delta)
                  in Inr (c1\<lparr>orientation := Some (rotateAroundAxis sc ori planeNormal (- delta)),
                            orientationComplement :=
                              Some (rotateAroundAxis sc oc planeNormal (- delta)),
                            firstCorner := Some point,
                            lastRotation := absoluteRotation\<rparr>))
      | _ \<Rightarrow> Inr c)"

definition applyTranslation :: "vec3 \<Rightarrow> controller \<Rightarrow> error + controller" where
  "applyTranslation translation c =
     (case (orientation c, orientationComplement c, firstCorner c) of
        (Some ori, Some oc, Some f) \<Rightarrow>
          let c1 = c\<lparr>firstCorner :=
                       Some (vec (x f + x translation) (y f + y translation) (z f + z translation))\<rparr>
          in (case createPlane c1 of
                Inl e \<Rightarrow> Inl e
              | Inr plane \<Rightarrow> Inr c1)
      | _ \<Rightarrow> Inr c)"

section \<open>Face resizing\<close>

text \<open>
  \<open>dimensionsChanged\<close> empties the grid; with a handle support and a map, and all of
  corner, width, depth and height truthy, it also calls \<open>createPlane\<close> to move the handles.
\<close>

definition dimensionsChanged :: "controller \<Rightarrow> error + controller" where
  "dimensionsChanged c =
     (let c1 = c\<lparr>emptyVolumes := []\<rparr>
      in if geoHandleSupport c1 \<and> mapPresent c1 then
           (if firstCorner c1 \<noteq> None \<and> width c1 \<noteq> 0 \<and> depth c1 \<noteq> 0 \<and> height c1 \<noteq> 0 then
              (case createPlane c1 of Inl e \<Rightarrow> Inl e | Inr plane \<Rightarrow> Inr c1)
            else Inr c1)
         else Inr c1)"

definition updateHeightFromTopFaceDrag ::
  "scene \<Rightarrow> vec3 \<Rightarrow> vec3 \<Rightarrow> controller \<Rightarrow> error + HandleEventResult \<times> controller" where
  "updateHeightFromTopFaceDrag sc viewPoint thirdCorner c =
     (case (firstCorner c, orientation c, orientationComplement c) of
        (Some f, Some ori, Some oc) \<Rightarrow>
          if \<not> mapPresent c then Inl IllegalState
          else
            let right = cross (cameraForward sc) (cameraUp sc);
                normal = normalize (cross right f)
            in (case rayPlane sc viewPoint normal thirdCorner of
                  Some worldPoint \<Rightarrow>
                    Inr (EVENT_HANDLED,
                         emitMeasurementUpdate
                           (c\<lparr>height := clamp (distanceAlongDirection worldPoint f f) 0 MAX_SIZE\<rparr>))
                | None \<Rightarrow> Inr (EVENT_HANDLED, c))
      | _ \<Rightarrow> Inl IllegalState)"

definition updateWidthFromFaceDragPrimary ::
  "scene \<Rightarrow> vec3 \<Rightarrow> vec3 \<Rightarrow> controller \<Rightarrow> error + HandleEventResult \<times> controller" where
  "updateWidthFromFaceDragPrimary sc viewPoint oppositeFaceCenter c =
     (case (firstCorner c, orientation c) of
        (Some f, Some ori) \<Rightarrow>
          if \<not> mapPresent c then Inr (EVENT_IGNORED, c)
          else (case rayPlane sc viewPoint oppositeFaceCenter oppositeFaceCenter of
                  Some worldPoint \<Rightarrow>
                    let newWidth =
                          clamp (distanceAlongDirection oppositeFaceCenter worldPoint ori)
                            (1 / 100) MAX_SIZE;
                        delta = width c - newWidth;
                        c1 = c\<lparr>firstCorner := Some (add f (scale ori delta)), width := newWidth\<rparr>
                    in (case dimensionsChanged c1 of
                          Inl e \<Rightarrow> Inl e
                        | Inr c2 \<Rightarrow> Inr (EVENT_HANDLED, emitMeasurementUpdate c2))
                | None \<Rightarrow> Inr (EVENT_HANDLED, c))
      | _ \<Rightarrow> Inr (EVENT_IGNORED, c))"

definition updateWidthFromFaceDragSecondary ::
  "scene \<Rightarrow> vec3 \<Rightarrow> vec3 \<Rightarrow> controller \<Rightarrow> error + HandleEventResult \<times> controller" where
  "updateWidthFromFaceDragSecondary sc viewPoint oppositeFaceCenter c =
     (case (firstCorner c, orientation c) of
        (Some f, Some ori) \<Rightarrow>
          if \<not> mapPresent c then Inr (EVENT_IGNORED, c)
          else (case rayPlane sc viewPoint oppositeFaceCenter oppositeFaceCenter of
                  Some worldPoint \<Rightarrow>
                    let c1 = c\<lparr>width :=
                                 clamp (distanceAlongDirection worldPoint oppositeFaceCenter ori)
                                   (1 / 100) MAX_SIZE\<rparr>
                    in (case dimensionsChanged c1 of
                          Inl e \<Rightarrow> Inl e
                        | Inr c2 \<Rightarrow> Inr (EVENT_HANDLED, emitMeasurementUpdate c2))
                | None \<Rightarrow> Inr (EVENT_HANDLED, c))
      | _ \<Rightarrow> Inr (EVENT_IGNORED, c))"

text \<open>
  The depth handlers cast \<open>_orientationComplement\<close> to a vector without a check: when it
  is absent the vector utilities read a field of \<open>null\<close>, a TypeError.
\<close>

definition MINMAX :: "int \<Rightarrow> real \<times> real" where
  "MINMAX direction = (if direction = 1 then (- MAX_SIZE, - (1 / 100)) else (1 / 100, MAX_SIZE))"

definition updateDepthFromFaceDragPrimary ::
  "scene \<Rightarrow> vec3 \<Rightarrow> vec3 \<Rightarrow> int \<Rightarrow> controller \<Rightarrow> error + HandleEventResult \<times> controller" where
  "updateDepthFromFaceDragPrimary sc viewPoint oppositeFaceCenter direction c =
     (case (firstCorner c, orientation c) of
        (Some f, Some ori) \<Rightarrow>
          if \<not> mapPresent c then Inr (EVENT_IGNORED, c)
          else (case rayPlane sc viewPoint oppositeFaceCenter oppositeFaceCenter of
                  Some worldPoint \<Rightarrow>
                    (case orientationComplement c of
                       None \<Rightarrow> Inl TypeError
                     | Some oc \<Rightarrow>
                         let newDepth =
                               clamp (distanceAlongDirection oppositeFaceCenter worldPoint oc)
                                 (fst (MINMAX direction)) (snd (MINMAX direction));
                             delta = depth c - newDepth;
                             c1 = c\<lparr>firstCorner := Some (add f (scale oc delta)),
                                    depth := newDepth\<rparr>
                         in (case dimensionsChanged c1 of
                               Inl e \<Rightarrow> Inl e
                             | Inr c2 \<Rightarrow> Inr (EVENT_HANDLED, emitMeasurementUpdate c2)))
                | None \<Rightarrow> Inr (EVENT_HANDLED, c))
      | _ \<Rightarrow> Inr (EVENT_IGNORED, c))"

definition updateDepthFromFaceDragSecondary ::
  "scene \<Rightarrow> vec3 \<Rightarrow> vec3 \<Rightarrow> int \<Rightarrow> controller \<Rightarrow> error + HandleEventResult \<times> controller" where
  "updateDepthFromFaceDragSecondary sc viewPoint oppositeFaceCenter direction c =
     (case (firstCorner c, orientation c) of
        (Some f, Some ori) \<Rightarrow>
          if \<not> mapPresent c then Inr (EVENT_IGNORED, c)
          else (case rayPlane sc viewPoint oppositeFaceCenter oppositeFaceCenter of
                  Some worldPoint \<Rightarrow>
                    (case orientationComplement c of
                       None \<Rightarrow> Inl TypeError
                     | Some oc \<Rightarrow>
                         let c1 = c\<lparr>depth :=
                                      clamp (distanceAlongDirection worldPoint oppositeFaceCenter oc)
                                        (fst (MINMAX direction)) (snd (MINMAX direction))\<rparr>
                         in (case dimensionsChanged c1 of
                               Inl e \<Rightarrow> Inl e
                             | Inr c2 \<Rightarrow> Inr (EVENT_HANDLED, emitMeasurementUpdate c2)))
                | None \<Rightarrow> Inr (EVENT_HANDLED, c))
      | _ \<Rightarrow> Inr (EVENT_IGNORED, c))"

text \<open>
  \<open>updateFaceSize\<close>: the dispatch of a drag on the face \<open>resizedFaceIndex\<close>. The face
  polygons come from the toolkit; \<open>polygons[k].focusPoint\<close> of a missing polygon is a
  TypeError. (The fields \<open>resizedFace\<close> and \<open>hoveredFace\<close> only feed the drawing.)
\<close>

definition withFocusPoint ::
  "vec3 list \<Rightarrow> nat \<Rightarrow> (vec3 \<Rightarrow> error + HandleEventResult \<times> controller)
   \<Rightarrow> error + HandleEventResult \<times> controller" where
  "withFocusPoint polygons k handler =
     (if k < length polygons then handler (polygons ! k) else Inl TypeError)"

definition updateFaceSize ::
  "scene \<Rightarrow> vec3 \<Rightarrow> controller \<Rightarrow> error + HandleEventResult \<times> controller" where
  "updateFaceSize sc viewPoint c =
     (if \<not> mapPresent c \<or> resizedFaceIndex c \<le> - 1 then Inr (EVENT_IGNORED, c)
      else case createBox sc c of
        Inl e \<Rightarrow> Inl e
      | Inr box \<Rightarrow>
          let polygons = faceFocusPoints sc box;
              face = resizedFaceIndex c
          in if face < 0 \<or> face \<ge> int (length polygons) then Inr (EVENT_IGNORED, c)
             else if depth c < 0 then
               (if face = 0 then
                  withFocusPoint polygons 1 (\<lambda>p. updateWidthFromFaceDragPrimary sc viewPoint p c)
                else if face = 1 then
                  withFocusPoint polygons 0 (\<lambda>p. updateWidthFromFaceDragSecondary sc viewPoint p c)
                else if face = 2 then
                  withFocusPoint polygons 3 (\<lambda>p. updateDepthFromFaceDragPrimary sc viewPoint p 1 c)
                else if face = 3 then
                  withFocusPoint polygons 2 (\<lambda>p. updateDepthFromFaceDragSecondary sc viewPoint p 1 c)
                else if face = 5 then
                  withFocusPoint polygons 4 (\<lambda>p. updateHeightFromTopFaceDrag sc viewPoint p c)
                else Inr (EVENT_IGNORED, c))
             else
               (if face = 0 then
                  withFocusPoint polygons 1
                    (\<lambda>p. updateDepthFromFaceDragPrimary sc viewPoint p (- 1) c)
                else if face = 1 then
                  withFocusPoint polygons 0
                    (\<lambda>p. updateDepthFromFaceDragSecondary sc viewPoint p (- 1) c)
                else if face = 2 then
                  withFocusPoint polygons 3 (\<lambda>p. updateWidthFromFaceDragPrimary sc viewPoint p c)
                else if face = 3 then
                  withFocusPoint polygons 2 (\<lambda>p. updateWidthFromFaceDragSecondary sc viewPoint p c)
                else if face = 5 then
                  withFocusPoint polygons 4 (\<lambda>p. updateHeightFromTopFaceDrag sc viewPoint p c)
                else Inr (EVENT_IGNORED, c)))"

section \<open>The volume refinement sampler\<close>

text \<open>
  What the scan does outside the controller is kept in a log: each call of
  \<open>moveCameraToPointAndSample\<close> for the grid cell \<open>(i, j)\<close>, and each value passed to
  \<open>updateBlockingBannerProgress\<close>, in the order they happen. \<open>clock\<close> counts the
  samples awaited so far, so that the collaborator \<open>abortClicked\<close> can say during which
  of them the user pressed abort. Saving and restoring the screen and showing and hiding
  the banner write no field of the controller and are left out.
\<close>

datatype scanEvent = Sampled nat nat | Progress real

record world =
  clock :: nat
  events :: "scanEvent list"

text \<open>
  \<open>moveCameraToPointAndSample\<close>. Without a map it returns 0 at once. Otherwise it awaits
  the camera move, during which the abort callback may run and set the flag, and measures
  the distance to the surface point, capped at \<open>maxValue\<close>; a throwing query gives 0.
\<close>

definition moveCameraToPointAndSample ::
  "scene \<Rightarrow> vec3 \<Rightarrow> real \<Rightarrow> controller \<Rightarrow> world \<Rightarrow> real \<times> controller \<times> world" where
  "moveCameraToPointAndSample sc point maxValue c w =
     (if \<not> mapPresent c then (0, c, w)
      else
        let c' = c\<lparr>abort := abort c \<or> abortClicked sc (clock w)\<rparr>;
            w' = w\<lparr>clock := clock w + 1\<rparr>
        in (case surfaceBelow sc point of
              Some mapPoint \<Rightarrow>
                let d = distance point mapPoint
                in ((if d > maxValue then maxValue else d), c', w')
            | None \<Rightarrow> (0, c', w')))"

text \<open>
  The inner loop of an even row: \<open>for (j = 0; j < row.length; j++)\<close>, leaving the loop
  when the flag is set, appending each sample. The list argument is the part of the row
  from index \<open>j\<close> on.
\<close>

fun scanLeftToRight ::
  "scene \<Rightarrow> real \<Rightarrow> nat \<Rightarrow> nat \<Rightarrow> vec3 list \<Rightarrow> controller \<Rightarrow> world \<Rightarrow> real list
   \<Rightarrow> controller \<times> world \<times> real list" where
  "scanLeftToRight sc maxValue i j [] c w dataRow = (c, w, dataRow)"
| "scanLeftToRight sc maxValue i j (point # rest) c w dataRow =
     (if abort c then (c, w, dataRow)
      else
        (case moveCameraToPointAndSample sc point maxValue c
                (w\<lparr>events := events w @ [Sampled i j]\<rparr>) of
           (d, c', w') \<Rightarrow> scanLeftToRight sc maxValue i (j + 1) rest c' w' (dataRow @ [d])))"

text \<open>
  The inner loop of an odd row: \<open>for (j = row.length - 1; j >= 0; j--)\<close>, with no look at
  the flag, each sample put in front (\<open>unshift\<close>). The list argument is the reversed
  part of the row up to index \<open>j\<close>, so \<open>j\<close> is the length of its tail.
\<close>

fun scanRightToLeft ::
  "scene \<Rightarrow> real \<Rightarrow> nat \<Rightarrow> vec3 list \<Rightarrow> controller \<Rightarrow> world \<Rightarrow> real list
   \<Rightarrow> controller \<times> world \<times> real list" where
  "scanRightToLeft sc maxValue i [] c w dataRow = (c, w, dataRow)"
| "scanRightToLeft sc maxValue i (point # rest) c w dataRow =
     (case moveCameraToPointAndSample sc point maxValue c
             (w\<lparr>events := events w @ [Sampled i (length rest)]\<rparr>) of
        (d, c', w') \<Rightarrow> scanRightToLeft sc maxValue i rest c' w' (d # dataRow))"

text \<open>
  The outer loop of \<open>processGridPoints\<close> from row \<open>i\<close> on; after the last row the run is
  marked successful. An aborted run returns the empty matrix and leaves \<open>success\<close> alone.
\<close>

fun scanRows ::
  "scene \<Rightarrow> real \<Rightarrow> nat \<Rightarrow> vec3 list list \<Rightarrow> controller \<Rightarrow> world \<Rightarrow> real list list
   \<Rightarrow> controller \<times> world \<times> real list list" where
  "scanRows sc maxValue i [] c w data = (c\<lparr>success := True\<rparr>, w, data)"
| "scanRows sc maxValue i (row # rest) c w data =
     (if abort c then (c, w, [])
      else if i mod 2 = 0 then
        (case scanLeftToRight sc maxValue i 0 row c w [] of
           (c', w', dataRow) \<Rightarrow>
             scanRows sc maxValue (i + 1) rest c'
               (w'\<lparr>events := events w' @ [Progress (100 * real (i + 1) / real RefinedGridSize)]\<rparr>)
               (data @ [dataRow]))
      else if abort c then (c, w, [])
      else
        (case scanRightToLeft sc maxValue i (rev row) c w [] of
           (c', w', dataRow) \<Rightarrow>
             scanRows sc maxValue (i + 1) rest c'
               (w'\<lparr>events := events w' @ [Progress (100 * real (i + 1) / real RefinedGridSize)]\<rparr>)
               (data @ [dataRow])))"

definition processGridPoints ::
  "scene \<Rightarrow> vec3 list list \<Rightarrow> real \<Rightarrow> controller \<Rightarrow> world
   \<Rightarrow> controller \<times> world \<times> real list list" where
  "processGridPoints sc gridPoints maxValue c w = scanRows sc maxValue 0 gridPoints c w []"

text \<open>
  \<open>substractEmptyAreas\<close>. The two loops run over \<open>RefinedGridSize\<close> indices whatever the
  size of the stored matrix: \<open>emptyVolumes[i][j]\<close> of a missing row is a TypeError, a
  missing cell is \<open>undefined\<close> and turns the sum into NaN (\<open>None\<close> here), for which the
  final comparison \<open>refined > 0\<close> is false.
\<close>

fun sumCells :: "real \<Rightarrow> real list \<Rightarrow> nat list \<Rightarrow> real option \<Rightarrow> real option" where
  "sumCells smallBaseArea row [] emptyVolume = emptyVolume"
| "sumCells smallBaseArea row (j # js) emptyVolume =
     sumCells smallBaseArea row js
       (case emptyVolume of
          None \<Rightarrow> None
        | Some e \<Rightarrow> if j < length row then Some (e + smallBaseArea * (row ! j)) else None)"

fun sumRows :: "real \<Rightarrow> real list list \<Rightarrow> nat list \<Rightarrow> real option \<Rightarrow> error + real option" where
  "sumRows smallBaseArea grid [] emptyVolume = Inr emptyVolume"
| "sumRows smallBaseArea grid (i # is) emptyVolume =
     (if i < length grid then
        sumRows smallBaseArea grid is
          (sumCells smallBaseArea (grid ! i) [0..<RefinedGridSize] emptyVolume)
      else Inl TypeError)"

definition substractEmptyAreas :: "controller \<Rightarrow> error + real" where
  "substractEmptyAreas c =
     (let w = \<bar>width c\<bar>; d = \<bar>depth c\<bar>; h = \<bar>height c\<bar>;
          area = w * d; volume = area * h
      in if canRefine c \<and> length (emptyVolumes c) > 0 then
           (let smallBaseArea = (w / real RefinedGridSize) * (d / real RefinedGridSize)
            in case sumRows smallBaseArea (emptyVolumes c) [0..<RefinedGridSize] (Some 0) of
                 Inl e \<Rightarrow> Inl e
               | Inr None \<Rightarrow> Inr 0
               | Inr (Some emptyVolume) \<Rightarrow>
                   let refined = volume - emptyVolume
                   in Inr (if refined > 0 then refined else 0))
         else Inr volume)"

text \<open>The grid of cell centres on the face through corners 0, 4, 2 and 6.\<close>

definition gridPointsOf :: "corners \<Rightarrow> vec3 list list" where
  "gridPointsOf cornerPoints =
     (let halfStep = (1 / 2) / real RefinedGridSize;
          step = 1 / real RefinedGridSize
      in map (\<lambda>i.
                let t = step * real i + halfStep;
                    leftPoint = interpolate (cp0 cornerPoints) (cp4 cornerPoints) t;
                    rightPoint = interpolate (cp2 cornerPoints) (cp6 cornerPoints) t
                in map (\<lambda>j. interpolate leftPoint rightPoint (step * real j + halfStep))
                     [0..<RefinedGridSize])
           [0..<RefinedGridSize])"

definition maxDistanceOf :: "corners \<Rightarrow> real" where
  "maxDistanceOf cornerPoints = distance (cp0 cornerPoints) (cp1 cornerPoints)"

text \<open>
  \<open>refineCalculation\<close> together with the continuation it attaches to the scan. The run
  is taken as one step of the controller: while the banner blocks the page no other
  gesture reaches it, only the abort button does.
\<close>

definition refineCalculation :: "scene \<Rightarrow> controller \<Rightarrow> world \<Rightarrow> error + controller \<times> world" where
  "refineCalculation sc c w =
     (if \<not> canRefine c then Inr (c, w)
      else
        let c1 = c\<lparr>emptyVolumes := []\<rparr>
        in case createBox sc c1 of
             Inl e \<Rightarrow> Inl e
           | Inr box \<Rightarrow>
               let cornerPoints = getCornerPoints sc box;
                   gridPoints = gridPointsOf cornerPoints;
                   c2 = c1\<lparr>abort := False, refinedVolumeCalculation := 0, success := False\<rparr>;
                   maxDistance = maxDistanceOf cornerPoints
               in case processGridPoints sc gridPoints maxDistance c2 w of
                    (c3, w3, data) \<Rightarrow>
                      if success c3 then
                        (let c4 = c3\<lparr>emptyVolumes := data\<rparr>
                         in case substractEmptyAreas c4 of
                              Inl e \<Rightarrow> Inl e
                            | Inr refined \<Rightarrow>
                                Inr (emitMeasurementUpdate
                                       (c4\<lparr>refinedVolumeCalculation := refined\<rparr>), w3))
                      else Inr (c3\<lparr>emptyVolumes := []\<rparr>, w3))"

section \<open>Notions used to state the properties\<close>

text \<open>
  A refinement grid as a successful run stores it, the cell area and the sum that the
  specification subtracts from the gross volume.
\<close>

definition refinementGrid :: "real list list \<Rightarrow> bool" where
  "refinementGrid grid =
     (length grid = RefinedGridSize
      \<and> (\<forall>row \<in> set grid. length row = RefinedGridSize \<and> (\<forall>v \<in> set row. 0 \<le> v)))"


definition cellArea :: "controller \<Rightarrow> real" where
  "cellArea c = (\<bar>width c\<bar> / real RefinedGridSize) * (\<bar>depth c\<bar> / real RefinedGridSize)"

definition grossVolume :: "controller \<Rightarrow> real" where
  "grossVolume c = s_volume (calculateVolume c)"

definition emptySum :: "controller \<Rightarrow> real" where
  "emptySum c =
     (\<Sum>i<RefinedGridSize. \<Sum>j<RefinedGridSize. cellArea c * (emptyVolumes c ! i ! j))"

text \<open>
  Two models have the same base rectangle when \<open>createPlane\<close> yields the same four
  corner points for both, in whatever order.
\<close>

definition sameBase :: "controller \<Rightarrow> controller \<Rightarrow> bool" where
  "sameBase c c' =
     (case (createPlane c, createPlane c') of
        (Inr p, Inr p') \<Rightarrow> set p = set p'
      | _ \<Rightarrow> False)"

text \<open>The eight corner points of a box, in the order of \<open>getCornerPoints\<close>.\<close>

definition cornerList :: "corners \<Rightarrow> vec3 list" where
  "cornerList k = [cp0 k, cp1 k, cp2 k, cp3 k, cp4 k, cp5 k, cp6 k, cp7 k]"

text \<open>
  The diagonal of the face the controller calls the top face, whose corners it names
  \<open>top0\<close>, \<open>top4\<close>, \<open>top2\<close>, \<open>top6\<close>: corners 0 and 6 are opposite on it.
\<close>

definition topFaceDiagonal :: "corners \<Rightarrow> real" where
  "topFaceDiagonal cornerPoints = distance (cp0 cornerPoints) (cp6 cornerPoints)"

text \<open>
  The value a sample of the point yields: what \<open>moveCameraToPointAndSample\<close> returns
  for it. It depends on the scene, the cap, the point and on whether a map is present.
\<close>

definition sampleAt :: "scene \<Rightarrow> real \<Rightarrow> controller \<Rightarrow> vec3 \<Rightarrow> real" where
  "sampleAt sc maxValue c point =
     fst (moveCameraToPointAndSample sc point maxValue c \<lparr>clock = 0, events = []\<rparr>)"

text \<open>The user presses abort during one of the \<open>n\<close> samples that follow sample \<open>start\<close>.\<close>

definition clickedIn :: "scene \<Rightarrow> nat \<Rightarrow> nat \<Rightarrow> bool" where
  "clickedIn sc start n = (\<exists>k<n. abortClicked sc (start + k))"

text \<open>
  The boustrophedon order in the words of the specification: even rows left to right, odd
  rows right to left, a progress report after each row; \<open>expectedFrom\<close> for the rows of
  a grid from row \<open>i\<close> on, \<open>boustrophedon n\<close> for a grid of \<open>n\<close> rows and columns with
  progress \<open>100 * (rows completed) / n\<close>.
\<close>

definition columnOrder :: "nat \<Rightarrow> nat \<Rightarrow> nat list" where
  "columnOrder i n = (if even i then [0..<n] else rev [0..<n])"

fun expectedFrom :: "nat \<Rightarrow> vec3 list list \<Rightarrow> scanEvent list" where
  "expectedFrom i [] = []"
| "expectedFrom i (row # rest) =
     map (Sampled i) (columnOrder i (length row))
     @ [Progress (100 * real (i + 1) / real RefinedGridSize)]
     @ expectedFrom (i + 1) rest"

definition boustrophedon :: "nat \<Rightarrow> scanEvent list" where
  "boustrophedon n =
     concat (map (\<lambda>i. map (Sampled i) (if even i then [0..<n] else rev [0..<n])
                        @ [Progress (100 * real (i + 1) / real n)])
               [0..<n])"

text \<open>The cells a log visits, in order.\<close>

fun sampledCells :: "scanEvent list \<Rightarrow> (nat \<times> nat) list" where
  "sampledCells [] = []"
| "sampledCells (Sampled i j # es) = (i, j) # sampledCells es"
| "sampledCells (Progress v # es) = sampledCells es"

text \<open>
  A plain scan in the words of the specification: every row left to right, the rows in
  order, each cell holding the sample of its own grid point.
\<close>

definition plainRowMajorScan ::
  "scene \<Rightarrow> real \<Rightarrow> controller \<Rightarrow> vec3 list list \<Rightarrow> real list list" where
  "plainRowMajorScan sc maxValue c gridPoints = map (map (sampleAt sc maxValue c)) gridPoints"

text \<open>The number of cells of all rows but the last.\<close>

definition cellsBeforeLastRow :: "vec3 list list \<Rightarrow> nat" where
  "cellsBeforeLastRow gridPoints = sum_list (map length (butlast gridPoints))"

section \<open>Concrete inputs\<close>

text \<open>The scenario of the specification, at a finalized controller with anchor at the origin.\<close>

definition scenarioBox :: controller where
  "scenarioBox =
     \<lparr>mapPresent = True, shiftPressed = False, state = VOLUME_DEFINED,
      firstCorner = Some (vec 0 0 0), orientation = Some (vec 1 0 0),
      orientationComplement = Some (vec 0 1 0),
      width = 10, depth = 10, height = 5,
      emptyVolumes = [], abort = False, success = False, refinedVolumeCalculation = 0,
      resizedFaceIndex = - 1, geoHandleSupport = False, lastRotation = 0, rotating = False,
      emitted = []\<rparr>"

text \<open>
  A stand-in for the toolkit, for concrete runs: the box frame has the coordinate axes,
  corner \<open>k\<close> takes bit 2 of \<open>k\<close> for the first size, bit 1 for the second, and the
  even corners lie on the upper face (as the controller labels them); faces are the
  centres of the corner quadruples; the surface lies two metres under every sampled
  point; the pointing ray meets every plane at the view point itself; rotations follow
  Rodrigues' formula with the angle in degrees.
\<close>

definition flatCorners :: "orientedBox \<Rightarrow> corners" where
  "flatCorners box =
     (let b = add (b_anchor box) (b_offset box); s = b_size box
      in \<lparr>cp0 = add b (vec 0 0 (z s)), cp1 = b,
          cp2 = add b (vec 0 (y s) (z s)), cp3 = add b (vec 0 (y s) 0),
          cp4 = add b (vec (x s) 0 (z s)), cp5 = add b (vec (x s) 0 0),
          cp6 = add b (vec (x s) (y s) (z s)), cp7 = add b (vec (x s) (y s) 0)\<rparr>)"

definition centre4 :: "vec3 \<Rightarrow> vec3 \<Rightarrow> vec3 \<Rightarrow> vec3 \<Rightarrow> vec3" where
  "centre4 a b c d = scale (add (add a b) (add c d)) (1 / 4)"

definition flatFaces :: "orientedBox \<Rightarrow> vec3 list" where
  "flatFaces box =
     (let k = flatCorners box
      in [centre4 (cp0 k) (cp1 k) (cp3 k) (cp2 k), centre4 (cp4 k) (cp5 k) (cp7 k) (cp6 k),
          centre4 (cp0 k) (cp1 k) (cp5 k) (cp4 k), centre4 (cp2 k) (cp3 k) (cp7 k) (cp6 k),
          centre4 (cp0 k) (cp2 k) (cp6 k) (cp4 k), centre4 (cp1 k) (cp3 k) (cp7 k) (cp5 k)])"

definition rodrigues :: "vec3 \<Rightarrow> vec3 \<Rightarrow> real \<Rightarrow> vec3" where
  "rodrigues v axis degrees =
     (let t = degrees * pi / 180; k = normalize axis
      in add (add (scale v (cos t)) (scale (cross k v) (sin t)))
             (scale k (dot k v * (1 - cos t))))"

definition demoScene :: scene where
  "demoScene =
     \<lparr>northAngle = (\<lambda>eye v. 0),
      getCornerPoints = flatCorners,
      faceFocusPoints = flatFaces,
      surfaceBelow = (\<lambda>p. Some (sub p (vec 0 0 2))),
      abortClicked = (\<lambda>n. False),
      rayPlane = (\<lambda>viewPoint normal point. Some viewPoint),
      cameraForward = vec 0 0 (- 1),
      cameraUp = vec 0 1 0,
      rotateAroundAxis = rodrigues,
      rotatePointAroundLine =
        (\<lambda>p center axis degrees. add center (rodrigues (sub p center) axis degrees))\<rparr>"

text \<open>A finalized box at the north pole of the ellipsoid, where the third axis points up.\<close>

definition poleBox :: controller where
  "poleBox =
     \<lparr>mapPresent = True, shiftPressed = False, state = VOLUME_DEFINED,
      firstCorner = Some (vec 0 0 6356752), orientation = Some (vec 1 0 0),
      orientationComplement = Some (vec 0 (- 1) 0),
      width = 10, depth = 10, height = 5,
      emptyVolumes = [], abort = False, success = False, refinedVolumeCalculation = 0,
      resizedFaceIndex = - 1, geoHandleSupport = False, lastRotation = 0, rotating = False,
      emitted = []\<rparr>"

definition drainedPole :: controller where
  "drainedPole = poleBox\<lparr>emptyVolumes := replicate 24 (replicate 24 0)\<rparr>"

definition poleShape :: orientedBox where
  "poleShape =
     \<lparr>b_anchor = vec 0 0 6356752, b_azimuth = 0, b_offset = vec 0 0 0, b_size = vec 10 10 5\<rparr>"

definition refinedPole :: controller where
  "refinedPole =
     poleBox\<lparr>emptyVolumes := replicate 24 (replicate 24 (1 / 2)), success := True,
             refinedVolumeCalculation := 450\<rparr>"

text \<open>
  A box anchored on the equator, 2538 m above the ellipsoid (6380675 m from the centre,
  coordinates turned to longitude 0), dragged 5052 m backwards during the depth step: the
  state in which the fourth click calls \<open>standardizePlane\<close>. The complement is the one
  \<open>updateWidth\<close> derives, \<open>normalize (cross orientation firstCorner)\<close>. The second
  model is what the standardization yields.
\<close>

definition curvedBox :: controller where
  "curvedBox =
     \<lparr>mapPresent = True, shiftPressed = False, state = PLANE_DEFINED,
      firstCorner = Some (vec 6380675 0 0), orientation = Some (vec 0 1 0),
      orientationComplement = Some (vec 0 0 (- 1)),
      width = 100, depth = - 5052, height = 10,
      emptyVolumes = [], abort = False, success = False, refinedVolumeCalculation = 0,
      resizedFaceIndex = - 1, geoHandleSupport = False, lastRotation = 0, rotating = False,
      emitted = []\<rparr>"

definition curvedBoxStandardized :: controller where
  "curvedBoxStandardized =
     curvedBox\<lparr>firstCorner := Some (vec 6380675 0 5052), depth := 5052,
               orientation := Some (vec 0 1 0),
               orientationComplement := Some (vec (5052 / 6380677) 0 (- (6380675 / 6380677)))\<rparr>"

text \<open>
  A stand-in for the toolkit on the globe, to build the shapes of the two models above:
  \<open>createTransformationFromGeoLocation\<close> places the box frame at the anchor, the third
  axis along the vertical there (the direction from the centre of the Earth), the second
  axis at the azimuth, in degrees clockwise from north, the first a quarter turn further;
  the corners are numbered as before; \<open>angle(forward, v, up)\<close> of the north-facing
  camera is the angle from north to \<open>v\<close>, counted counter-clockwise seen from above.
  With it the four lower corners of the shape of either model are the rectangle that
  \<open>createPlane\<close> computes for that model. The two shapes are what \<open>createBox\<close>
  yields for the two models.
\<close>

definition globeCorners :: "orientedBox \<Rightarrow> corners" where
  "globeCorners box =
     (let a = b_anchor box;
          up = normalize a;
          east = normalize (cross (vec 0 0 1) a);
          north = cross up east;
          t = b_azimuth box * pi / 180;
          ex = sub (scale east (cos t)) (scale north (sin t));
          ey = add (scale north (cos t)) (scale east (sin t));
          off = b_offset box;
          s = b_size box;
          b = add a (add (scale ex (x off)) (add (scale ey (y off)) (scale up (z off))));
          px = scale ex (x s);
          py = scale ey (y s);
          pz = scale up (z s)
      in \<lparr>cp0 = add b pz, cp1 = b,
          cp2 = add b (add py pz), cp3 = add b py,
          cp4 = add b (add px pz), cp5 = add b px,
          cp6 = add b (add px (add py pz)), cp7 = add b (add px py)\<rparr>)"

definition globeNorthAngle :: "vec3 \<Rightarrow> vec3 \<Rightarrow> real" where
  "globeNorthAngle eye v =
     (let up = normalize eye;
          east = normalize (cross (vec 0 0 1) eye);
          north = cross up east;
          e = dot v east;
          n = dot v north
      in if n = 0 then (if 0 < e then - 90 else if e < 0 then 90 else 0)
         else if 0 < n then - (arctan (e / n) * 180 / pi)
         else 180 - arctan (e / n) * 180 / pi)"

definition globeScene :: scene where
  "globeScene = demoScene\<lparr>northAngle := globeNorthAngle, getCornerPoints := globeCorners\<rparr>"

definition curvedShape :: orientedBox where
  "curvedShape =
     \<lparr>b_anchor = vec 6380675 0 0, b_azimuth = 0, b_offset = vec 0 0 0,
      b_size = vec 100 5052 10\<rparr>"

definition curvedShapeStandardized :: orientedBox where
  "curvedShapeStandardized =
     \<lparr>b_anchor = vec 6380675 0 5052, b_azimuth = 90, b_offset = vec 0 0 0,
      b_size = vec 5052 100 10\<rparr>"

text \<open>
  A box with a footprint of 3 by 4 metres and a height of 10 metres, over a surface lying
  7 metres under its top face; the world before a scan; and a refined box whose face 5 is
  being dragged.
\<close>

definition tallBox :: controller where
  "tallBox = poleBox\<lparr>width := 4, depth := 3, height := 10\<rparr>"

definition tallShape :: orientedBox where
  "tallShape =
     \<lparr>b_anchor = vec 0 0 6356752, b_azimuth = 0, b_offset = vec 0 0 0, b_size = vec 3 4 10\<rparr>"

definition deepScene :: scene where
  "deepScene = demoScene\<lparr>surfaceBelow := (\<lambda>p. Some (sub p (vec 0 0 7)))\<rparr>"

definition startWorld :: world where
  "startWorld = \<lparr>clock = 0, events = []\<rparr>"

definition resizingPole :: controller where
  "resizingPole = refinedPole\<lparr>state := FACE_RESIZING, resizedFaceIndex := 5\<rparr>"

text \<open>
  A scene whose user presses abort during the very first sample; a scene with flat ground
  at height 6356750; and a grid of two rows and two columns, one to four metres above it.
\<close>

definition abortingScene :: scene where
  "abortingScene = demoScene\<lparr>abortClicked := (\<lambda>n. n = 0)\<rparr>"

definition groundScene :: scene where
  "groundScene = demoScene\<lparr>surfaceBelow := (\<lambda>p. Some (vec (x p) (y p) 6356750))\<rparr>"

definition smallGrid :: "vec3 list list" where
  "smallGrid = [[vec 0 0 6356751, vec 1 0 6356752], [vec 0 1 6356753, vec 1 1 6356754]]"

text \<open>
  Three more scenes: the surface lies 12 metres under every sampled point; the surface
  query fails at every point; the surface passes through every sampled point. And a refined
  box whose face 3 is being dragged.
\<close>

definition abyssScene :: scene where
  "abyssScene = demoScene\<lparr>surfaceBelow := (\<lambda>p. Some (sub p (vec 0 0 12)))\<rparr>"

definition silentScene :: scene where
  "silentScene = demoScene\<lparr>surfaceBelow := (\<lambda>p. None)\<rparr>"



section \<open>Verified properties\<close>

subsection \<open>The measurement snapshot\<close>

text \<open>
  Claim C8. For every model state the snapshot of \<open>calculateVolume\<close> has
  area = width * depth and volume = area * height, with width, depth and height the
  absolute values of the stored fields and hence non-negative; for stored width 10,
  depth 10 and height 5 the snapshot reports area 100 and volume 500.
\<close>

theorem calculateVolume_snapshot:
  "s_area (calculateVolume c) = s_width (calculateVolume c) * s_depth (calculateVolume c)
   \<and> s_volume (calculateVolume c) = s_area (calculateVolume c) * s_height (calculateVolume c)
   \<and> s_width (calculateVolume c) = \<bar>width c\<bar>
   \<and> s_depth (calculateVolume c) = \<bar>depth c\<bar>
   \<and> s_height (calculateVolume c) = \<bar>height c\<bar>
   \<and> 0 \<le> s_width (calculateVolume c)
   \<and> 0 \<le> s_depth (calculateVolume c)
   \<and> 0 \<le> s_height (calculateVolume c)
   \<and> (width c = 10 \<and> depth c = 10 \<and> height c = 5
        \<longrightarrow> s_area (calculateVolume c) = 100 \<and> s_volume (calculateVolume c) = 500)"
  by (simp add: calculateVolume_def Let_def)

theorem calculateVolume_snapshot_witness:
  "width scenarioBox = 10 \<and> depth scenarioBox = 10 \<and> height scenarioBox = 5
   \<and> s_area (calculateVolume scenarioBox) = 100
   \<and> s_volume (calculateVolume scenarioBox) = 500"
  using calculateVolume_snapshot [where c = scenarioBox] by (simp add: scenarioBox_def)

subsection \<open>Vector lengths\<close>

lemma length_v_nonneg: "0 \<le> length_v v"
  by (simp add: length_v_def)

lemma distance_nonneg: "0 \<le> distance a b"
  by (simp add: distance_def length_v_nonneg)

subsection \<open>Rotation and translation keep the extents\<close>

text \<open>
  Claim C6. Whatever the rotation angle and the translation vector, \<open>applyRotation\<close> and
  \<open>applyTranslation\<close> leave width, depth and height exactly as they were, and the
  translation leaves orientation and orientationComplement as they were too. (Either
  method fails only without a map, which rotate/translate mode never is.)
\<close>

theorem rotation_translation_preserve_extents:
  "(case applyRotation sc absoluteRotation c of
      Inr c' \<Rightarrow> width c' = width c \<and> depth c' = depth c \<and> height c' = height c
    | Inl e \<Rightarrow> \<not> mapPresent c)
   \<and> (case applyTranslation translation c of
      Inr c' \<Rightarrow> width c' = width c \<and> depth c' = depth c \<and> height c' = height c
                \<and> orientation c' = orientation c
                \<and> orientationComplement c' = orientationComplement c
    | Inl e \<Rightarrow> \<not> mapPresent c)"
  by (auto simp: applyRotation_def applyTranslation_def createPlane_def Let_def
           split: option.splits sum.splits if_splits)

theorem rotation_translation_preserve_extents_witness:
  "applyTranslation (vec 1 2 3) poleBox = Inr (poleBox\<lparr>firstCorner := Some (vec 1 2 6356755)\<rparr>)
   \<and> (\<exists>c'. applyRotation demoScene 90 poleBox = Inr c'
           \<and> width c' = 10 \<and> depth c' = 10 \<and> height c' = 5)"
proof -
  have t: "applyTranslation (vec 1 2 3) poleBox
           = Inr (poleBox\<lparr>firstCorner := Some (vec 1 2 6356755)\<rparr>)"
    by (simp add: applyTranslation_def createPlane_def poleBox_def vec_def)
  have m: "mapPresent poleBox" "width poleBox = 10" "depth poleBox = 10" "height poleBox = 5"
    by (simp_all add: poleBox_def)
  show ?thesis
    using rotation_translation_preserve_extents
      [where sc = demoScene and absoluteRotation = 90 and c = poleBox
         and translation = "vec 1 2 3"] t m
    by (auto split: sum.splits)
qed

subsection \<open>A seeded box is standardized\<close>

text \<open>
  Claim C10. For every oriented box handed to the seeding interface,
  \<open>extractBoxParameters\<close> returns a non-negative width, depth and height (each a vector
  length), so \<open>initializeBox\<close> enters \<open>VOLUME_DEFINED\<close> with a non-negative depth and
  \<open>standardizePlane\<close> leaves the seeded model as it is.
\<close>

theorem initializeBox_standardized:
  "0 \<le> p_width (extractBoxParameters sc box)
   \<and> 0 \<le> p_depth (extractBoxParameters sc box)
   \<and> 0 \<le> p_height (extractBoxParameters sc box)
   \<and> state (initializeBox sc box c) = VOLUME_DEFINED
   \<and> 0 \<le> width (initializeBox sc box c)
   \<and> 0 \<le> depth (initializeBox sc box c)
   \<and> 0 \<le> height (initializeBox sc box c)
   \<and> standardizePlane (initializeBox sc box c) = Inr (initializeBox sc box c)"
proof -
  have d: "\<not> depth (initializeBox sc box c) < 0"
    by (simp add: initializeBox_def extractBoxParameters_def Let_def length_v_nonneg not_less)
  have "standardizePlane (initializeBox sc box c) = Inr (initializeBox sc box c)"
    using d by (simp add: standardizePlane_def)
  then show ?thesis
    by (simp add: initializeBox_def extractBoxParameters_def Let_def length_v_nonneg)
qed

theorem initializeBox_standardized_witness:
  "state (initializeBox demoScene poleShape scenarioBox) = VOLUME_DEFINED
   \<and> 0 \<le> depth (initializeBox demoScene poleShape scenarioBox)
   \<and> standardizePlane (initializeBox demoScene poleShape scenarioBox)
       = Inr (initializeBox demoScene poleShape scenarioBox)"
  using initializeBox_standardized [where sc = demoScene and box = poleShape and c = scenarioBox]
  by simp

subsection \<open>The refined volume\<close>

lemma sumCells_append:
  "sumCells a row (js @ ks) acc = sumCells a row ks (sumCells a row js acc)"
  by (induction js arbitrary: acc) simp_all

lemma sumCells_upt:
  "n \<le> length row \<Longrightarrow>
   sumCells a row [0..<n] (Some e) = Some (e + (\<Sum>j<n. a * (row ! j)))"
  by (induction n) (simp_all add: sumCells_append)

lemma sumRows_append:
  "sumRows a grid (is @ ks) acc =
     (case sumRows a grid is acc of Inl e \<Rightarrow> Inl e | Inr acc' \<Rightarrow> sumRows a grid ks acc')"
  by (induction "is" arbitrary: acc) simp_all

lemma sumRows_upt:
  "n \<le> length grid \<Longrightarrow> \<forall>i<n. RefinedGridSize \<le> length (grid ! i) \<Longrightarrow>
   sumRows a grid [0..<n] (Some e)
     = Inr (Some (e + (\<Sum>i<n. \<Sum>j<RefinedGridSize. a * (grid ! i ! j))))"
  by (induction n) (simp_all add: sumRows_append sumCells_upt)

lemma substractEmptyAreas_grid:
  assumes "canRefine c" and "refinementGrid (emptyVolumes c)"
  shows "substractEmptyAreas c = Inr (max 0 (grossVolume c - emptySum c))"
proof -
  let ?g = "emptyVolumes c"
  have len: "length ?g = RefinedGridSize" using assms(2) by (simp add: refinementGrid_def)
  have rows: "\<forall>i<RefinedGridSize. RefinedGridSize \<le> length (?g ! i)"
    using assms(2) by (simp add: refinementGrid_def)
  have s: "sumRows (cellArea c) ?g [0..<RefinedGridSize] (Some 0) = Inr (Some (emptySum c))"
    using sumRows_upt [of RefinedGridSize ?g "cellArea c" 0] len rows
    by (simp add: emptySum_def)
  have pos: "0 < length ?g" using len by (simp add: RefinedGridSize_def)
  show ?thesis
    using assms(1) pos s
    by (simp add: substractEmptyAreas_def Let_def grossVolume_def calculateVolume_def
          cellArea_def max_def)
qed




subsection \<open>Standardization\<close>

lemma sqrt_square: "0 \<le> a \<Longrightarrow> sqrt (a * a) = a"
  by simp

lemma vec_eq_iff: "vec a b c = vec a' b' c' \<longleftrightarrow> a = a' \<and> b = b' \<and> c = c'"
  by (simp add: vec_def)

lemma vec_sel [simp]: "x (vec a b c) = a" "y (vec a b c) = b" "z (vec a b c) = c"
  by (simp_all add: vec_def)

lemma curved_std: "standardizePlane curvedBox = Inr curvedBoxStandardized"
proof -
  have n1: "length_v (vec 0 100 0) = 100"
    using sqrt_square [of 100] by (simp add: length_v_def)
  have "(5052::real) * 5052 + 6380675 * 6380675 = 6380677 * 6380677" by simp
  then have n2: "length_v (vec 5052 0 (- 6380675)) = 6380677"
    using sqrt_square [of 6380677] by (simp add: length_v_def)
  have o: "normalize (vec 0 100 0) = vec 0 1 0"
    by (simp add: normalize_def n1)
  have oc: "normalize (vec 5052 0 (- 6380675)) = vec (5052 / 6380677) 0 (- (6380675 / 6380677))"
    by (simp add: normalize_def n2)
  show ?thesis
    by (simp add: standardizePlane_def curvedBox_def curvedBoxStandardized_def Let_def
          add_def scale_def sub_def cross_def o oc)
qed

lemma curved_plane:
  "createPlane curvedBox
     = Inr [vec 6380675 0 0, vec 6380675 100 0, vec 6380675 100 5052, vec 6380675 0 5052]"
  by (simp add: createPlane_def curvedBox_def add_def scale_def)

lemma curved_std_plane:
  "createPlane curvedBoxStandardized
     = Inr [vec 6380675 0 5052, vec 6380675 100 5052,
            vec (6380675 + 25522704 / 6380677) 100 (10104 / 6380677),
            vec (6380675 + 25522704 / 6380677) 0 (10104 / 6380677)]"
  by (simp add: createPlane_def curvedBox_def curvedBoxStandardized_def add_def scale_def vec_eq_iff)

lemma norm_anchor: "normalize (vec 6380675 0 0) = vec 1 0 0"
  using sqrt_square [of 6380675] by (simp add: normalize_def length_v_def)

lemma norm_east: "normalize (vec 0 6380675 0) = vec 0 1 0"
  using sqrt_square [of 6380675] by (simp add: normalize_def length_v_def)

lemma norm_anchor_std:
  "normalize (vec 6380675 0 5052) = vec (6380675 / 6380677) 0 (5052 / 6380677)"
proof -
  have "(6380675::real) * 6380675 + 5052 * 5052 = 6380677 * 6380677" by simp
  then have "length_v (vec 6380675 0 5052) = 6380677"
    using sqrt_square [of 6380677] by (simp add: length_v_def)
  then show ?thesis by (simp add: normalize_def)
qed

lemma globeNorthAngle_curved: "globeNorthAngle (vec 6380675 0 0) (vec 0 1 0) = - 90"
  by (simp add: globeNorthAngle_def cross_def norm_anchor norm_east dot_def)

lemma globeNorthAngle_curved_std: "globeNorthAngle (vec 6380675 0 5052) (vec 0 1 0) = - 90"
  by (simp add: globeNorthAngle_def cross_def norm_anchor_std norm_east dot_def)

lemma curved_createBox: "createBox globeScene curvedBox = Inr curvedShape"
  by (simp add: createBox_def globeScene_def curvedBox_def curvedShape_def
        globeNorthAngle_curved)

lemma curved_std_createBox:
  "createBox globeScene curvedBoxStandardized = Inr curvedShapeStandardized"
  by (simp add: createBox_def globeScene_def curvedBox_def curvedBoxStandardized_def
        curvedShapeStandardized_def globeNorthAngle_curved_std)

lemma curved_globe_corners:
  "cornerList (getCornerPoints globeScene curvedShape)
     = [vec 6380685 0 0, vec 6380675 0 0, vec 6380685 0 5052, vec 6380675 0 5052,
        vec 6380685 100 0, vec 6380675 100 0, vec 6380685 100 5052, vec 6380675 100 5052]"
  by (simp add: cornerList_def globeScene_def globeCorners_def curvedShape_def Let_def
        cross_def norm_anchor norm_east add_def sub_def scale_def vec_eq_iff)

lemma quarter_turn: "(90::real) * pi / 180 = pi / 2"
  by simp

lemma curved_std_globe_corners:
  "cornerList (getCornerPoints globeScene curvedShapeStandardized)
     = [vec (40713090023725 / 6380677) 0 (32235230724 / 6380677),
        vec 6380675 0 5052,
        vec (40713090023725 / 6380677) 100 (32235230724 / 6380677),
        vec 6380675 100 5052,
        vec (40713115546429 / 6380677) 0 (60624 / 6380677),
        vec (6380675 + 25522704 / 6380677) 0 (10104 / 6380677),
        vec (40713115546429 / 6380677) 100 (60624 / 6380677),
        vec (6380675 + 25522704 / 6380677) 100 (10104 / 6380677)]"
  by (simp add: cornerList_def globeScene_def globeCorners_def curvedShapeStandardized_def
        Let_def cross_def norm_anchor_std norm_east add_def sub_def scale_def vec_eq_iff)

text \<open>
  Claim C3, as stated, fails. The box above is standardized; the shape \<open>createBox\<close>
  builds from the model before and the one it builds after are anchored at two points
  5052 m apart, each with the vertical of its own anchor. Their eight corner points are
  listed: only the two lower corners of the far edge, one of them the new anchor, are
  shared; the
  old anchor is no corner of the new shape, whose corner nearest to it lies about four
  metres higher. The same shows in the base rectangles of \<open>createPlane\<close>, the lower
  four corners of the two shapes.
\<close>

theorem standardizePlane_solid_counterexample:
  "depth curvedBox < 0
   \<and> standardizePlane curvedBox = Inr curvedBoxStandardized
   \<and> createBox globeScene curvedBox = Inr curvedShape
   \<and> createBox globeScene curvedBoxStandardized = Inr curvedShapeStandardized
   \<and> cornerList (getCornerPoints globeScene curvedShape)
       = [vec 6380685 0 0, vec 6380675 0 0, vec 6380685 0 5052, vec 6380675 0 5052,
          vec 6380685 100 0, vec 6380675 100 0, vec 6380685 100 5052, vec 6380675 100 5052]
   \<and> cornerList (getCornerPoints globeScene curvedShapeStandardized)
       = [vec (40713090023725 / 6380677) 0 (32235230724 / 6380677),
          vec 6380675 0 5052,
          vec (40713090023725 / 6380677) 100 (32235230724 / 6380677),
          vec 6380675 100 5052,
          vec (40713115546429 / 6380677) 0 (60624 / 6380677),
          vec (6380675 + 25522704 / 6380677) 0 (10104 / 6380677),
          vec (40713115546429 / 6380677) 100 (60624 / 6380677),
          vec (6380675 + 25522704 / 6380677) 100 (10104 / 6380677)]
   \<and> set (cornerList (getCornerPoints globeScene curvedShape))
       \<noteq> set (cornerList (getCornerPoints globeScene curvedShapeStandardized))
   \<and> createPlane curvedBox
       = Inr [vec 6380675 0 0, vec 6380675 100 0, vec 6380675 100 5052, vec 6380675 0 5052]
   \<and> createPlane curvedBoxStandardized
       = Inr [vec 6380675 0 5052, vec 6380675 100 5052,
              vec (6380675 + 25522704 / 6380677) 100 (10104 / 6380677),
              vec (6380675 + 25522704 / 6380677) 0 (10104 / 6380677)]
   \<and> \<not> sameBase curvedBox curvedBoxStandardized"
proof -
  have "vec 6380675 0 0 \<notin> set [vec 6380675 0 5052, vec 6380675 100 5052,
            vec (6380675 + 25522704 / 6380677) 100 (10104 / 6380677),
            vec (6380675 + 25522704 / 6380677) 0 (10104 / 6380677)]"
    by (simp add: vec_eq_iff)
  moreover have "vec 6380675 0 0 \<in> set [vec 6380675 0 0, vec 6380675 100 0, vec 6380675 100 5052, vec 6380675 0 5052]"
    by simp
  ultimately have b: "\<not> sameBase curvedBox curvedBoxStandardized"
    unfolding sameBase_def curved_plane curved_std_plane by (simp del: set_simps) blast
  have "vec 6380675 0 0 \<notin> set (cornerList (getCornerPoints globeScene curvedShapeStandardized))"
    unfolding curved_std_globe_corners by (simp add: vec_eq_iff)
  moreover have "vec 6380675 0 0 \<in> set (cornerList (getCornerPoints globeScene curvedShape))"
    unfolding curved_globe_corners by simp
  ultimately have k: "set (cornerList (getCornerPoints globeScene curvedShape))
       \<noteq> set (cornerList (getCornerPoints globeScene curvedShapeStandardized))"
    by blast
  have d: "depth curvedBox < 0" by (simp add: curvedBox_def)
  show ?thesis
    using d curved_std curved_createBox curved_std_createBox curved_globe_corners
      curved_std_globe_corners k curved_plane curved_std_plane b
    by blast
qed

lemma vec_eta: "vec (x v) (y v) (z v) = (v::vec3)"
  by (simp add: vec_def)

lemma length_v_scale: "length_v (scale v k) = \<bar>k\<bar> * length_v v"
proof -
  have "x v * k * (x v * k) + y v * k * (y v * k) + z v * k * (z v * k)
        = (k * k) * (x v * x v + y v * y v + z v * z v)"
    by (simp add: algebra_simps)
  then show ?thesis
    by (simp add: length_v_def scale_def real_sqrt_mult)
qed

lemma normalize_scale_unit:
  assumes "length_v v = 1" and "0 < k"
  shows "normalize (scale v k) = v"
proof -
  have "length_v (scale v k) = k" using assms by (simp add: length_v_scale)
  then have "normalize (scale v k) = vec (x v) (y v) (z v)"
    using assms(2) by (simp add: normalize_def scale_def)
  then show ?thesis by (simp add: vec_eta)
qed

lemma sub_add_cancel_edge: "sub (add f (add a b)) (add f b) = a"
  by (simp add: sub_def add_def vec_eta)

lemma vec3_eqI: "x a = x b \<Longrightarrow> y a = y b \<Longrightarrow> z a = z b \<Longrightarrow> (a::vec3) = b"
  by simp

lemma dot_cross_right: "dot (cross a b) b = 0"
  by (simp add: dot_def cross_def algebra_simps)

lemma dot_normalize: "dot (normalize v) b = dot v b / length_v v"
  by (simp add: dot_def normalize_def add_divide_distrib)

lemma dot_normalize_self: "dot (normalize u) u = length_v u"
proof -
  have "0 \<le> x u * x u + y u * y u + z u * z u" by simp
  then have "(x u * x u + y u * y u + z u * z u) / sqrt (x u * x u + y u * y u + z u * z u)
             = sqrt (x u * x u + y u * y u + z u * z u)"
    by (rule real_div_sqrt)
  then show ?thesis
    by (simp add: dot_normalize) (simp add: dot_def length_v_def)
qed

lemma dot_cross_shifted:
  "dot (cross a (add b (scale oc d))) b = - d * dot oc (cross a b)"
  by (simp add: dot_def cross_def add_def scale_def algebra_simps)

lemma length_v_zero_dot: "length_v v = 0 \<Longrightarrow> dot v b = 0"
proof -
  assume "length_v v = 0"
  then have "x v * x v + y v * y v + z v * z v = 0"
    by (simp add: length_v_def)
  then have "x v = 0 \<and> y v = 0 \<and> z v = 0"
    by (smt (verit) mult_nonneg_nonneg mult_eq_0_iff zero_le_square)
  then show ?thesis by (simp add: dot_def)
qed

lemma rederived_complement_differs:
  assumes oc: "oc = normalize (cross a b)" and u: "length_v (cross a b) \<noteq> 0" and d: "d \<noteq> 0"
  shows "normalize (cross a (add b (scale oc d))) \<noteq> oc"
proof
  let ?v = "cross a (add b (scale oc d))"
  assume e: "normalize ?v = oc"
  have "dot oc b = 0" by (simp add: oc dot_normalize dot_cross_right)
  then have z: "dot ?v b / length_v ?v = 0" using e by (simp add: dot_normalize [symmetric])
  have "dot ?v b = - d * length_v (cross a b)"
    by (simp add: dot_cross_shifted oc dot_normalize_self)
  then have n: "dot ?v b \<noteq> 0" using u d by simp
  then have "length_v ?v \<noteq> 0" using length_v_zero_dot by blast
  with z n show False by simp
qed

lemma corner_back:
  assumes "add (add f (scale oc d)) (scale oc' (- d)) = f" and "d \<noteq> 0"
  shows "oc' = oc"
proof (rule vec3_eqI)
  from assms(1) have "x (add (add f (scale oc d)) (scale oc' (- d))) = x f"
      "y (add (add f (scale oc d)) (scale oc' (- d))) = y f"
      "z (add (add f (scale oc d)) (scale oc' (- d))) = z f"
    by simp_all
  then have "(x oc - x oc') * d = 0" "(y oc - y oc') * d = 0" "(z oc - z oc') * d = 0"
    by (simp_all add: add_def scale_def algebra_simps)
  then show "x oc' = x oc" "y oc' = y oc" "z oc' = z oc"
    using assms(2) by simp_all
qed

lemma corner_back_far:
  assumes "add (add f (scale oc d)) (add (scale a w) (scale oc' (- d))) = add f (scale a w)"
    and "d \<noteq> 0"
  shows "oc' = oc"
proof (rule vec3_eqI)
  let ?l = "add (add f (scale oc d)) (add (scale a w) (scale oc' (- d)))"
  from assms(1) have "x ?l = x (add f (scale a w))" "y ?l = y (add f (scale a w))"
      "z ?l = z (add f (scale a w))"
    by simp_all
  then have "(x oc - x oc') * d = 0" "(y oc - y oc') * d = 0" "(z oc - z oc') * d = 0"
    by (simp_all add: add_def scale_def algebra_simps)
  then show "x oc' = x oc" "y oc' = y oc" "z oc' = z oc"
    using assms(2) by simp_all
qed

text \<open>
  Claim C3, amended. \<open>standardizePlane\<close> changes nothing when the depth is not negative,
  and applying it twice is applying it once. On a negative depth (with a map and the three
  vectors present) it succeeds, makes the depth its absolute value, keeps width and
  height, and moves the anchor to the old anchor plus depth times the old complement, the
  corner opposite along the depth axis. The orientation becomes the normalized width edge
  and the complement is derived anew, as the normalized cross product of the new
  orientation and the new anchor. When the orientation is a unit vector and the width
  positive, the orientation stays and the edge of the base rectangle at the new anchor is
  the old far edge; when moreover the old complement was the normalized cross product of
  the orientation and the old anchor, as the width step leaves it, the new complement
  differs from the old one and the other two corners of the base rectangle are not the
  old ones: the model does not describe the same solid.
\<close>

theorem standardizePlane_relocates:
  "(\<not> depth c < 0 \<longrightarrow> standardizePlane c = Inr c)
   \<and> (standardizePlane c = Inr c' \<longrightarrow> 0 \<le> depth c' \<and> standardizePlane c' = Inr c')
   \<and> (depth c < 0 \<and> mapPresent c \<and> firstCorner c = Some f \<and> orientation c = Some ori
        \<and> orientationComplement c = Some oc \<longrightarrow>
        (\<exists>r. standardizePlane c = Inr r
           \<and> depth r = \<bar>depth c\<bar> \<and> width r = width c \<and> height r = height c
           \<and> firstCorner r = Some (add f (scale oc (depth c)))
           \<and> orientation r = Some (normalize (scale ori (width c)))
           \<and> orientationComplement r
               = Some (normalize (cross (normalize (scale ori (width c)))
                                        (add f (scale oc (depth c)))))
           \<and> (length_v ori = 1 \<and> 0 < width c \<longrightarrow>
                orientation r = Some ori
                \<and> orientationComplement r
                    = Some (normalize (cross ori (add f (scale oc (depth c)))))
                \<and> (\<exists>p q. createPlane c = Inr p \<and> createPlane r = Inr q
                      \<and> q ! 0 = p ! 3 \<and> q ! 1 = p ! 2
                      \<and> (oc = normalize (cross ori f) \<and> length_v (cross ori f) \<noteq> 0 \<longrightarrow>
                           orientationComplement r \<noteq> Some oc
                           \<and> q ! 3 \<noteq> p ! 0 \<and> q ! 2 \<noteq> p ! 1)))))"
proof (intro conjI impI)
  assume "\<not> depth c < 0"
  then show "standardizePlane c = Inr c" by (simp add: standardizePlane_def)
next
  assume a: "standardizePlane c = Inr c'"
  then show d: "0 \<le> depth c'"
    by (auto simp: standardizePlane_def Let_def split: if_splits option.splits)
  then show "standardizePlane c' = Inr c'" by (simp add: standardizePlane_def)
next
  assume h: "depth c < 0 \<and> mapPresent c \<and> firstCorner c = Some f \<and> orientation c = Some ori
        \<and> orientationComplement c = Some oc"
  define fourth where "fourth = add f (scale oc (depth c))"
  define ori' where "ori' = normalize (scale ori (width c))"
  define oc' where "oc' = normalize (cross ori' fourth)"
  define r where
    "r = c\<lparr>firstCorner := Some fourth, depth := \<bar>depth c\<bar>, orientation := Some ori',
            orientationComplement := Some oc'\<rparr>"
  have r: "standardizePlane c = Inr r"
    using h
    by (simp add: standardizePlane_def Let_def r_def ori'_def oc'_def fourth_def
          sub_add_cancel_edge)
  have fields: "depth r = \<bar>depth c\<bar>" "width r = width c" "height r = height c"
      "firstCorner r = Some (add f (scale oc (depth c)))"
      "orientation r = Some (normalize (scale ori (width c)))"
      "orientationComplement r
         = Some (normalize (cross (normalize (scale ori (width c))) (add f (scale oc (depth c)))))"
    by (simp_all add: r_def fourth_def ori'_def oc'_def)
  have edge: "orientation r = Some ori
        \<and> orientationComplement r = Some (normalize (cross ori (add f (scale oc (depth c)))))
        \<and> (\<exists>p q. createPlane c = Inr p \<and> createPlane r = Inr q
              \<and> q ! 0 = p ! 3 \<and> q ! 1 = p ! 2
              \<and> (oc = normalize (cross ori f) \<and> length_v (cross ori f) \<noteq> 0 \<longrightarrow>
                   orientationComplement r \<noteq> Some oc
                   \<and> q ! 3 \<noteq> p ! 0 \<and> q ! 2 \<noteq> p ! 1))"
    if u: "length_v ori = 1 \<and> 0 < width c"
  proof -
    have o: "ori' = ori"
      using u by (simp add: ori'_def normalize_scale_unit)
    define p where "p = [f, add f (scale ori (width c)),
                         add f (add (scale ori (width c)) (scale oc (depth c))),
                         add f (scale oc (depth c))]"
    define q where "q = [fourth, add fourth (scale ori (width c)),
                         add fourth (add (scale ori (width c)) (scale oc' (- depth c))),
                         add fourth (scale oc' (- depth c))]"
    have cp: "createPlane c = Inr p" using h by (simp add: createPlane_def p_def)
    have cq: "createPlane r = Inr q"
      using h o by (simp add: createPlane_def r_def q_def)
    have "add (add f (scale oc (depth c))) (scale ori (width c))
          = add f (add (scale ori (width c)) (scale oc (depth c)))"
      by (simp add: add_def algebra_simps)
    then have same: "q ! 0 = p ! 3" "q ! 1 = p ! 2"
      by (simp_all add: p_def q_def fourth_def)
    have dn: "depth c \<noteq> 0" using h by simp
    have differs: "orientationComplement r \<noteq> Some oc \<and> q ! 3 \<noteq> p ! 0 \<and> q ! 2 \<noteq> p ! 1"
      if g: "oc = normalize (cross ori f) \<and> length_v (cross ori f) \<noteq> 0"
    proof -
      have ne: "oc' \<noteq> oc"
        using rederived_complement_differs [of oc ori f "depth c"] g dn
        by (simp add: oc'_def o fourth_def)
      have "q ! 3 \<noteq> p ! 0"
      proof
        assume "q ! 3 = p ! 0"
        then have "add (add f (scale oc (depth c))) (scale oc' (- depth c)) = f"
          by (simp add: p_def q_def fourth_def)
        from corner_back [OF this dn] ne show False by simp
      qed
      moreover have "q ! 2 \<noteq> p ! 1"
      proof
        assume "q ! 2 = p ! 1"
        then have "add (add f (scale oc (depth c)))
                     (add (scale ori (width c)) (scale oc' (- depth c)))
                   = add f (scale ori (width c))"
          by (simp add: p_def q_def fourth_def)
        from corner_back_far [OF this dn] ne show False by simp
      qed
      moreover have "orientationComplement r \<noteq> Some oc"
        using ne by (simp add: r_def)
      ultimately show ?thesis by blast
    qed
    have "orientation r = Some ori" using o by (simp add: r_def)
    moreover have "orientationComplement r
          = Some (normalize (cross ori (add f (scale oc (depth c)))))"
      using o by (simp add: r_def oc'_def fourth_def)
    ultimately show ?thesis using cp cq same differs by blast
  qed
  show "\<exists>r. standardizePlane c = Inr r
           \<and> depth r = \<bar>depth c\<bar> \<and> width r = width c \<and> height r = height c
           \<and> firstCorner r = Some (add f (scale oc (depth c)))
           \<and> orientation r = Some (normalize (scale ori (width c)))
           \<and> orientationComplement r
               = Some (normalize (cross (normalize (scale ori (width c)))
                                        (add f (scale oc (depth c)))))
           \<and> (length_v ori = 1 \<and> 0 < width c \<longrightarrow>
                orientation r = Some ori
                \<and> orientationComplement r
                    = Some (normalize (cross ori (add f (scale oc (depth c)))))
                \<and> (\<exists>p q. createPlane c = Inr p \<and> createPlane r = Inr q
                      \<and> q ! 0 = p ! 3 \<and> q ! 1 = p ! 2
                      \<and> (oc = normalize (cross ori f) \<and> length_v (cross ori f) \<noteq> 0 \<longrightarrow>
                           orientationComplement r \<noteq> Some oc
                           \<and> q ! 3 \<noteq> p ! 0 \<and> q ! 2 \<noteq> p ! 1)))"
    using r fields edge by blast
qed


theorem standardizePlane_relocates_witness:
  "depth curvedBox < 0 \<and> mapPresent curvedBox \<and> length_v (vec 0 1 0) = 1 \<and> 0 < width curvedBox
   \<and> vec 0 0 (- 1) = normalize (cross (vec 0 1 0) (vec 6380675 0 0))
   \<and> length_v (cross (vec 0 1 0) (vec 6380675 0 0)) \<noteq> 0
   \<and> (\<exists>r. standardizePlane curvedBox = Inr r \<and> depth r = 5052 \<and> width r = 100 \<and> height r = 10
          \<and> firstCorner r = Some (vec 6380675 0 5052) \<and> orientation r = Some (vec 0 1 0)
          \<and> orientationComplement r
              = Some (normalize (cross (vec 0 1 0) (vec 6380675 0 5052)))
          \<and> orientationComplement r \<noteq> Some (vec 0 0 (- 1))
          \<and> (\<exists>p q. createPlane curvedBox = Inr p \<and> createPlane r = Inr q
                \<and> q ! 0 = p ! 3 \<and> q ! 1 = p ! 2 \<and> q ! 3 \<noteq> p ! 0 \<and> q ! 2 \<noteq> p ! 1)
          \<and> standardizePlane r = Inr r)
   \<and> \<not> depth poleBox < 0 \<and> standardizePlane poleBox = Inr poleBox"
proof -
  have pd: "\<not> depth poleBox < 0" by (simp add: poleBox_def)
  have ps: "standardizePlane poleBox = Inr poleBox"
    using standardizePlane_relocates [where c = poleBox] pd by blast
  have u: "length_v (vec 0 1 0) = 1" by (simp add: length_v_def)
  have h: "depth curvedBox < 0 \<and> mapPresent curvedBox \<and> firstCorner curvedBox = Some (vec 6380675 0 0)
           \<and> orientation curvedBox = Some (vec 0 1 0)
           \<and> orientationComplement curvedBox = Some (vec 0 0 (- 1))"
    by (simp add: curvedBox_def)
  have w: "0 < width curvedBox" "width curvedBox = 100" "height curvedBox = 10" "depth curvedBox = - 5052"
    by (simp_all add: curvedBox_def)
  have a: "add (vec 6380675 0 0) (scale (vec 0 0 (- 1)) (- 5052)) = vec 6380675 0 5052"
    by (simp add: add_def scale_def)
  have cr: "cross (vec 0 1 0) (vec 6380675 0 0) = vec 0 0 (- 6380675)"
    by (simp add: cross_def)
  have ln: "length_v (vec 0 0 (- 6380675)) = 6380675"
    using sqrt_square [of 6380675] by (simp add: length_v_def)
  have g: "vec 0 0 (- 1) = normalize (cross (vec 0 1 0) (vec 6380675 0 0))
           \<and> length_v (cross (vec 0 1 0) (vec 6380675 0 0)) \<noteq> 0"
    by (simp add: cr ln normalize_def vec_eq_iff)
  from standardizePlane_relocates
         [where c = curvedBox and f = "vec 6380675 0 0" and ori = "vec 0 1 0"
            and oc = "vec 0 0 (- 1)"] h u w(1) g
  obtain r p q where r: "standardizePlane curvedBox = Inr r" "depth r = \<bar>depth curvedBox\<bar>"
      "width r = width curvedBox" "height r = height curvedBox"
      "firstCorner r = Some (add (vec 6380675 0 0) (scale (vec 0 0 (- 1)) (depth curvedBox)))"
      "orientation r = Some (vec 0 1 0)"
      "orientationComplement r
         = Some (normalize (cross (vec 0 1 0)
                   (add (vec 6380675 0 0) (scale (vec 0 0 (- 1)) (depth curvedBox)))))"
      "orientationComplement r \<noteq> Some (vec 0 0 (- 1))"
      "createPlane curvedBox = Inr p" "createPlane r = Inr q"
      "q ! 0 = p ! 3" "q ! 1 = p ! 2" "q ! 3 \<noteq> p ! 0" "q ! 2 \<noteq> p ! 1"
    by blast
  have i: "standardizePlane r = Inr r"
    using standardizePlane_relocates [where c = curvedBox and c' = r] r(1) by blast
  have e: "\<exists>p q. createPlane curvedBox = Inr p \<and> createPlane r = Inr q
                \<and> q ! 0 = p ! 3 \<and> q ! 1 = p ! 2 \<and> q ! 3 \<noteq> p ! 0 \<and> q ! 2 \<noteq> p ! 1"
    using r(9-14) by blast
  have f: "standardizePlane curvedBox = Inr r \<and> depth r = 5052 \<and> width r = 100 \<and> height r = 10
          \<and> firstCorner r = Some (vec 6380675 0 5052) \<and> orientation r = Some (vec 0 1 0)
          \<and> orientationComplement r
              = Some (normalize (cross (vec 0 1 0) (vec 6380675 0 5052)))
          \<and> orientationComplement r \<noteq> Some (vec 0 0 (- 1))"
    using r(1-8) w a by simp
  show ?thesis using f e i g h u w(1) pd ps by blast
qed


subsection \<open>Samples\<close>

lemma sample_range:
  "0 \<le> maxValue \<Longrightarrow>
   0 \<le> fst (moveCameraToPointAndSample sc p maxValue c w)
   \<and> fst (moveCameraToPointAndSample sc p maxValue c w) \<le> maxValue"
  by (auto simp: moveCameraToPointAndSample_def Let_def distance_nonneg split: option.splits)

lemma sample_failure:
  "surfaceBelow sc p = None \<or> \<not> mapPresent c \<Longrightarrow>
   fst (moveCameraToPointAndSample sc p maxValue c w) = 0"
  by (auto simp: moveCameraToPointAndSample_def Let_def)

lemma scanLeftToRight_range:
  "0 \<le> maxValue \<Longrightarrow> \<forall>v \<in> set dataRow. 0 \<le> v \<and> v \<le> maxValue \<Longrightarrow>
   scanLeftToRight sc maxValue i j row c w dataRow = (c', w', out) \<Longrightarrow>
   \<forall>v \<in> set out. 0 \<le> v \<and> v \<le> maxValue"
proof (induction row arbitrary: j c w dataRow)
  case Nil
  then show ?case by simp
next
  case (Cons point rest)
  show ?case
  proof (cases "abort c")
    case True
    with Cons.prems show ?thesis by simp
  next
    case False
    obtain d c1 w1 where s:
      "moveCameraToPointAndSample sc point maxValue c (w\<lparr>events := events w @ [Sampled i j]\<rparr>)
       = (d, c1, w1)"
      by (cases "moveCameraToPointAndSample sc point maxValue c (w\<lparr>events := events w @ [Sampled i j]\<rparr>)")
    have "0 \<le> d \<and> d \<le> maxValue"
      using sample_range [OF Cons.prems(1), of sc point c "w\<lparr>events := events w @ [Sampled i j]\<rparr>"] s
      by simp
    then have "\<forall>v \<in> set (dataRow @ [d]). 0 \<le> v \<and> v \<le> maxValue"
      using Cons.prems(2) by auto
    moreover have "scanLeftToRight sc maxValue i (j + 1) rest c1 w1 (dataRow @ [d]) = (c', w', out)"
      using Cons.prems(3) False s by simp
    ultimately show ?thesis
      using Cons.IH [OF Cons.prems(1)] by blast
  qed
qed

lemma scanRightToLeft_range:
  "0 \<le> maxValue \<Longrightarrow> \<forall>v \<in> set dataRow. 0 \<le> v \<and> v \<le> maxValue \<Longrightarrow>
   scanRightToLeft sc maxValue i row c w dataRow = (c', w', out) \<Longrightarrow>
   \<forall>v \<in> set out. 0 \<le> v \<and> v \<le> maxValue"
proof (induction row arbitrary: c w dataRow)
  case Nil
  then show ?case by simp
next
  case (Cons point rest)
  let ?w = "w\<lparr>events := events w @ [Sampled i (length rest)]\<rparr>"
  obtain d c1 w1 where s: "moveCameraToPointAndSample sc point maxValue c ?w = (d, c1, w1)"
    by (cases "moveCameraToPointAndSample sc point maxValue c ?w")
  have "0 \<le> d \<and> d \<le> maxValue"
    using sample_range [OF Cons.prems(1), of sc point c ?w] s by simp
  then have "\<forall>v \<in> set (d # dataRow). 0 \<le> v \<and> v \<le> maxValue"
    using Cons.prems(2) by auto
  moreover have "scanRightToLeft sc maxValue i rest c1 w1 (d # dataRow) = (c', w', out)"
    using Cons.prems(3) s by simp
  ultimately show ?case
    using Cons.IH [OF Cons.prems(1)] by blast
qed

lemma scanRows_range:
  "0 \<le> maxValue \<Longrightarrow> \<forall>row \<in> set data. \<forall>v \<in> set row. 0 \<le> v \<and> v \<le> maxValue \<Longrightarrow>
   scanRows sc maxValue i rows c w data = (c', w', out) \<Longrightarrow>
   \<forall>row \<in> set out. \<forall>v \<in> set row. 0 \<le> v \<and> v \<le> maxValue"
proof (induction rows arbitrary: i c w data)
  case Nil
  then show ?case by auto
next
  case (Cons row rest)
  show ?case
  proof (cases "abort c")
    case True
    with Cons.prems show ?thesis by auto
  next
    case False
    show ?thesis
    proof (cases "i mod 2 = 0")
      case True
      obtain c1 w1 dataRow where s: "scanLeftToRight sc maxValue i 0 row c w [] = (c1, w1, dataRow)"
        by (cases "scanLeftToRight sc maxValue i 0 row c w []")
      have "\<forall>v \<in> set dataRow. 0 \<le> v \<and> v \<le> maxValue"
        using scanLeftToRight_range [OF Cons.prems(1) _ s] by simp
      then have "\<forall>r \<in> set (data @ [dataRow]). \<forall>v \<in> set r. 0 \<le> v \<and> v \<le> maxValue"
        using Cons.prems(2) by auto
      moreover have "scanRows sc maxValue (i + 1) rest c1
               (w1\<lparr>events := events w1 @ [Progress (100 * real (i + 1) / real RefinedGridSize)]\<rparr>)
               (data @ [dataRow]) = (c', w', out)"
        using Cons.prems(3) False True s by simp
      ultimately show ?thesis using Cons.IH [OF Cons.prems(1)] by blast
    next
      case odd: False
      obtain c1 w1 dataRow where s:
        "scanRightToLeft sc maxValue i (rev row) c w [] = (c1, w1, dataRow)"
        by (cases "scanRightToLeft sc maxValue i (rev row) c w []")
      have "\<forall>v \<in> set dataRow. 0 \<le> v \<and> v \<le> maxValue"
        using scanRightToLeft_range [OF Cons.prems(1) _ s] by simp
      then have "\<forall>r \<in> set (data @ [dataRow]). \<forall>v \<in> set r. 0 \<le> v \<and> v \<le> maxValue"
        using Cons.prems(2) by auto
      moreover have "scanRows sc maxValue (i + 1) rest c1
               (w1\<lparr>events := events w1 @ [Progress (100 * real (i + 1) / real RefinedGridSize)]\<rparr>)
               (data @ [dataRow]) = (c', w', out)"
        using Cons.prems(3) False odd s by simp
      ultimately show ?thesis using Cons.IH [OF Cons.prems(1)] by blast
    qed
  qed
qed

lemma tall_corners:
  "getCornerPoints deepScene tallShape
     = \<lparr>cp0 = vec 0 0 6356762, cp1 = vec 0 0 6356752,
        cp2 = vec 0 4 6356762, cp3 = vec 0 4 6356752,
        cp4 = vec 3 0 6356762, cp5 = vec 3 0 6356752,
        cp6 = vec 3 4 6356762, cp7 = vec 3 4 6356752\<rparr>"
  by (simp add: deepScene_def demoScene_def flatCorners_def tallShape_def add_def Let_def)

lemma tall_createBox: "createBox deepScene tallBox = Inr tallShape"
  by (simp add: createBox_def tallBox_def poleBox_def tallShape_def deepScene_def demoScene_def)

lemma tall_diagonal: "topFaceDiagonal (getCornerPoints deepScene tallShape) = 5"
  using sqrt_square [of 5]
  by (simp add: tall_corners topFaceDiagonal_def distance_def length_v_def sub_def)

lemma tall_maxDistance: "maxDistanceOf (getCornerPoints deepScene tallShape) = 10"
  using sqrt_square [of 10]
  by (simp add: tall_corners maxDistanceOf_def distance_def length_v_def sub_def)

lemma tall_sample:
  "moveCameraToPointAndSample deepScene (vec (1 / 16) (1 / 12) 6356762) 10 tallBox w
     = (7, tallBox, w\<lparr>clock := clock w + 1\<rparr>)"
  using sqrt_square [of 7]
  by (simp add: moveCameraToPointAndSample_def deepScene_def demoScene_def tallBox_def
        poleBox_def distance_def length_v_def sub_def Let_def)

text \<open>
  Claim C5, as stated, fails: on the box of 3 by 4 by 10 metres the first grid point
  measures 7 metres, above the diagonal 5 of the top face, and is returned unchanged.
\<close>

theorem sample_exceeds_diagonal_counterexample:
  "createBox deepScene tallBox = Inr tallShape
   \<and> hd (hd (gridPointsOf (getCornerPoints deepScene tallShape))) = vec (1 / 16) (1 / 12) 6356762
   \<and> topFaceDiagonal (getCornerPoints deepScene tallShape) = 5
   \<and> fst (moveCameraToPointAndSample deepScene (vec (1 / 16) (1 / 12) 6356762)
             (maxDistanceOf (getCornerPoints deepScene tallShape)) tallBox startWorld) = 7
   \<and> \<not> fst (moveCameraToPointAndSample deepScene (vec (1 / 16) (1 / 12) 6356762)
             (maxDistanceOf (getCornerPoints deepScene tallShape)) tallBox startWorld)
        \<le> topFaceDiagonal (getCornerPoints deepScene tallShape)"
proof -
  have u: "[0..<RefinedGridSize] = 0 # [1..<RefinedGridSize]"
    by (simp add: RefinedGridSize_def upt_conv_Cons)
  have g: "hd (hd (gridPointsOf (getCornerPoints deepScene tallShape)))
           = vec (1 / 16) (1 / 12) 6356762"
    unfolding gridPointsOf_def Let_def u
    by (simp add: tall_corners interpolate_def add_def sub_def scale_def RefinedGridSize_def)
  show ?thesis
    using g by (simp add: tall_createBox tall_diagonal tall_maxDistance tall_sample)
qed

subsection \<open>Face resizing and the stale grid\<close>

lemma dimensionsChanged_clears:
  "dimensionsChanged c = Inr c' \<Longrightarrow> emptyVolumes c' = [] \<and> emitted c' = emitted c"
  by (auto simp: dimensionsChanged_def Let_def split: if_splits sum.splits)

lemma emitMeasurementUpdate_fields:
  "emptyVolumes (emitMeasurementUpdate c) = emptyVolumes c
   \<and> emitted (emitMeasurementUpdate c)
       = emitted c @ [Update (calculateVolume c) (canRefine c)]"
  by (simp add: emitMeasurementUpdate_def createEvent_def)

lemma width_depth_resize_clears_grid:
  assumes "rayPlane sc viewPoint q q \<noteq> None"
    and "updateWidthFromFaceDragPrimary sc viewPoint q c = Inr (EVENT_HANDLED, c')
         \<or> updateWidthFromFaceDragSecondary sc viewPoint q c = Inr (EVENT_HANDLED, c')
         \<or> updateDepthFromFaceDragPrimary sc viewPoint q direction c = Inr (EVENT_HANDLED, c')
         \<or> updateDepthFromFaceDragSecondary sc viewPoint q direction c = Inr (EVENT_HANDLED, c')"
  shows "emptyVolumes c' = []
         \<and> emitted c' = emitted c @ [Update (calculateVolume c') (canRefine c')]"
  using assms
  by (auto simp: updateWidthFromFaceDragPrimary_def updateWidthFromFaceDragSecondary_def
        updateDepthFromFaceDragPrimary_def updateDepthFromFaceDragSecondary_def Let_def
        emitMeasurementUpdate_def createEvent_def calculateVolume_def canRefine_def
      dest!: dimensionsChanged_clears
      split: option.splits if_splits sum.splits)

lemma height_resize_leaves_grid:
  "updateHeightFromTopFaceDrag sc viewPoint q c = Inr (r, c') \<Longrightarrow>
   emptyVolumes c' = emptyVolumes c"
  by (auto simp: updateHeightFromTopFaceDrag_def Let_def emitMeasurementUpdate_def
      split: option.splits if_splits)

lemma pole_normalize: "normalize (vec 0 0 6356752) = vec 0 0 1"
  using sqrt_square [of 6356752] by (simp add: normalize_def length_v_def)

text \<open>
  Claim C4 does not hold of the height drag. On a refined box (grid stored, refined volume
  450) a drag of face 5 changes the height from 5 to 8 and emits an Update, and the grid
  and the refined volume stay as they were: \<open>updateHeightFromTopFaceDrag\<close> does not
  call \<open>dimensionsChanged\<close>, which the four width and depth handlers do.
\<close>

theorem height_resize_keeps_grid:
  "updateFaceSize demoScene (vec 5 5 6356760) resizingPole
     = Inr (EVENT_HANDLED,
            resizingPole\<lparr>height := 8,
                          emitted := [Update \<lparr>s_width = 10, s_depth = 10, s_height = 8, s_area = 100,
                                              s_volume = 800, s_refinedVolume = 450\<rparr> False]\<rparr>)
   \<and> height resizingPole = 5
   \<and> emptyVolumes resizingPole = replicate 24 (replicate 24 (1 / 2))"
proof -
  have b: "createBox demoScene resizingPole = Inr poleShape"
    by (simp add: createBox_def resizingPole_def refinedPole_def poleBox_def poleShape_def
          demoScene_def)
  have f: "length (faceFocusPoints demoScene poleShape) = 6"
    by (simp add: demoScene_def flatFaces_def Let_def)
  have h: "clamp (distanceAlongDirection (vec 5 5 6356760) (vec 0 0 6356752) (vec 0 0 6356752))
             0 MAX_SIZE = 8"
    by (simp add: clamp_def distanceAlongDirection_def pole_normalize dot_def sub_def MAX_SIZE_def)
  have r: "rayPlane demoScene v n q = Some v" for v n q
    by (simp add: demoScene_def)
  have u: "updateHeightFromTopFaceDrag demoScene (vec 5 5 6356760) q resizingPole
           = Inr (EVENT_HANDLED,
            resizingPole\<lparr>height := 8,
                          emitted := [Update \<lparr>s_width = 10, s_depth = 10, s_height = 8, s_area = 100,
                                              s_volume = 800, s_refinedVolume = 450\<rparr> False]\<rparr>)" for q
    unfolding updateHeightFromTopFaceDrag_def
    by (simp add: resizingPole_def refinedPole_def poleBox_def r h Let_def emitMeasurementUpdate_def
          createEvent_def calculateVolume_def canRefine_def)
  have "updateFaceSize demoScene (vec 5 5 6356760) resizingPole
     = Inr (EVENT_HANDLED,
            resizingPole\<lparr>height := 8,
                          emitted := [Update \<lparr>s_width = 10, s_depth = 10, s_height = 8, s_area = 100,
                                              s_volume = 800, s_refinedVolume = 450\<rparr> False]\<rparr>)"
    unfolding updateFaceSize_def b
    by (simp add: Let_def f withFocusPoint_def u)
       (simp add: resizingPole_def refinedPole_def poleBox_def)
  then show ?thesis
    by (simp add: resizingPole_def refinedPole_def poleBox_def)
qed

theorem height_resize_keeps_grid_witness:
  "\<exists>c'. updateFaceSize demoScene (vec 5 5 6356760) resizingPole = Inr (EVENT_HANDLED, c')
        \<and> height c' = 8 \<and> emptyVolumes c' = replicate 24 (replicate 24 (1 / 2))
        \<and> emptyVolumes c' \<noteq> []"
  using height_resize_keeps_grid by simp

subsection \<open>The scan, sample by sample\<close>

lemma clickedIn_0 [simp]: "clickedIn sc a 0 = False"
  by (simp add: clickedIn_def)

lemma clickedIn_Suc: "clickedIn sc a (Suc n) = (abortClicked sc a \<or> clickedIn sc (Suc a) n)"
proof -
  have "(\<exists>k<Suc n. abortClicked sc (a + k))
        = (abortClicked sc a \<or> (\<exists>k<n. abortClicked sc (a + Suc k)))"
    by (metis (no_types, lifting) add.right_neutral less_Suc_eq_0_disj)
  then show ?thesis by (simp add: clickedIn_def)
qed

lemma clickedIn_add:
  "clickedIn sc a (m + n) = (clickedIn sc a m \<or> clickedIn sc (a + m) n)"
proof (induction m arbitrary: a)
  case 0
  then show ?case by simp
next
  case (Suc m)
  show ?case using Suc.IH [of "Suc a"] by (simp add: clickedIn_Suc)
qed

lemma sample_step:
  "moveCameraToPointAndSample sc p m c w
     = (sampleAt sc m c p,
        c\<lparr>abort := abort c \<or> (mapPresent c \<and> abortClicked sc (clock w))\<rparr>,
        w\<lparr>clock := clock w + (if mapPresent c then 1 else 0)\<rparr>)"
  by (simp add: moveCameraToPointAndSample_def sampleAt_def Let_def split: option.splits)

lemma sampleAt_abort [simp]: "sampleAt sc m (c\<lparr>abort := b\<rparr>) p = sampleAt sc m c p"
  by (simp add: moveCameraToPointAndSample_def sampleAt_def Let_def split: option.splits)

lemma scanLeftToRight_spec:
  "scanLeftToRight sc m i j row c w dataRow = (c1, w1, out) \<Longrightarrow>
   \<exists>k. k \<le> length row \<and> (k = length row \<or> abort c1)
     \<and> events w1 = events w @ map (Sampled i) [j..<j + k]
     \<and> out = dataRow @ map (sampleAt sc m c) (take k row)
     \<and> c1 = c\<lparr>abort := abort c1\<rparr>
     \<and> clock w1 = clock w + (if mapPresent c then k else 0)
     \<and> (abort c1 \<longleftrightarrow> abort c \<or> (mapPresent c \<and> clickedIn sc (clock w) k))"
proof (induction row arbitrary: j c w dataRow)
  case Nil
  then show ?case by auto
next
  case (Cons p rest)
  show ?case
  proof (cases "abort c")
    case True
    with Cons.prems have "c1 = c" "w1 = w" "out = dataRow" by simp_all
    with True show ?thesis by (intro exI [of _ 0]) simp
  next
    case False
    define c' where "c' = c\<lparr>abort := abort c \<or> (mapPresent c \<and> abortClicked sc (clock w))\<rparr>"
    define w' where "w' = w\<lparr>events := events w @ [Sampled i j],
                              clock := clock w + (if mapPresent c then 1 else 0)\<rparr>"
    have "scanLeftToRight sc m i (j + 1) rest c' w' (dataRow @ [sampleAt sc m c p]) = (c1, w1, out)"
      using Cons.prems False by (simp add: sample_step c'_def w'_def)
    from Cons.IH [OF this] obtain k where k: "k \<le> length rest" "k = length rest \<or> abort c1"
      "events w1 = events w' @ map (Sampled i) [j + 1..<j + 1 + k]"
      "out = (dataRow @ [sampleAt sc m c p]) @ map (sampleAt sc m c') (take k rest)"
      "c1 = c'\<lparr>abort := abort c1\<rparr>"
      "clock w1 = clock w' + (if mapPresent c' then k else 0)"
      "abort c1 \<longleftrightarrow> abort c' \<or> (mapPresent c' \<and> clickedIn sc (clock w') k)"
      by blast
    have e: "events w1 = events w @ map (Sampled i) [j..<j + Suc k]"
      using k(3) by (simp add: w'_def upt_conv_Cons)
    have o: "out = dataRow @ map (sampleAt sc m c) (take (Suc k) (p # rest))"
      using k(4) by (simp add: c'_def)
    have f: "c1 = c\<lparr>abort := abort c1\<rparr>"
      using k(5) by (simp add: c'_def)
    have t: "clock w1 = clock w + (if mapPresent c then Suc k else 0)"
      using k(6) by (simp add: c'_def w'_def)
    have a: "abort c1 \<longleftrightarrow> abort c \<or> (mapPresent c \<and> clickedIn sc (clock w) (Suc k))"
      using k(7) False by (auto simp: c'_def w'_def clickedIn_Suc)
    show ?thesis
      using k(1,2) e o f t a by (intro exI [of _ "Suc k"]) simp
  qed
qed

lemma scanRightToLeft_spec:
  "scanRightToLeft sc m i revrow c w dataRow = (c1, w1, out) \<Longrightarrow>
   events w1 = events w @ map (Sampled i) (rev [0..<length revrow])
   \<and> out = map (sampleAt sc m c) (rev revrow) @ dataRow
   \<and> c1 = c\<lparr>abort := abort c1\<rparr>
   \<and> clock w1 = clock w + (if mapPresent c then length revrow else 0)
   \<and> (abort c1 \<longleftrightarrow> abort c \<or> (mapPresent c \<and> clickedIn sc (clock w) (length revrow)))"
proof (induction revrow arbitrary: c w dataRow)
  case Nil
  then show ?case by auto
next
  case (Cons p rest)
  define c' where "c' = c\<lparr>abort := abort c \<or> (mapPresent c \<and> abortClicked sc (clock w))\<rparr>"
  define w' where "w' = w\<lparr>events := events w @ [Sampled i (length rest)],
                            clock := clock w + (if mapPresent c then 1 else 0)\<rparr>"
  have "scanRightToLeft sc m i rest c' w' (sampleAt sc m c p # dataRow) = (c1, w1, out)"
    using Cons.prems by (simp add: sample_step c'_def w'_def)
  from Cons.IH [OF this] have k:
      "events w1 = events w' @ map (Sampled i) (rev [0..<length rest])"
      "out = map (sampleAt sc m c') (rev rest) @ (sampleAt sc m c p # dataRow)"
      "c1 = c'\<lparr>abort := abort c1\<rparr>"
      "clock w1 = clock w' + (if mapPresent c' then length rest else 0)"
      "abort c1 \<longleftrightarrow> abort c' \<or> (mapPresent c' \<and> clickedIn sc (clock w') (length rest))"
    by blast+
  have e: "events w1 = events w @ map (Sampled i) (rev [0..<length (p # rest)])"
    using k(1) by (simp add: w'_def)
  have o: "out = map (sampleAt sc m c) (rev (p # rest)) @ dataRow"
    using k(2) by (simp add: c'_def)
  have f: "c1 = c\<lparr>abort := abort c1\<rparr>"
    using k(3) by (simp add: c'_def)
  have t: "clock w1 = clock w + (if mapPresent c then length (p # rest) else 0)"
    using k(4) by (simp add: c'_def w'_def)
  have a: "abort c1 \<longleftrightarrow> abort c \<or> (mapPresent c \<and> clickedIn sc (clock w) (length (p # rest)))"
    using k(5) by (auto simp: c'_def w'_def clickedIn_Suc)
  show ?case using e o f t a by blast
qed

lemma scanRows_aborted:
  "abort c \<Longrightarrow>
   scanRows sc m i rows c w data
     = (if rows = [] then (c\<lparr>success := True\<rparr>, w, data) else (c, w, []))"
  by (cases rows) simp_all

lemma row_step:
  assumes "\<not> abort c"
  shows "\<exists>c1 w1 dataRow k.
     scanRows sc m i (row # rest) c w data
       = scanRows sc m (i + 1) rest c1
           (w1\<lparr>events := events w1 @ [Progress (100 * real (i + 1) / real RefinedGridSize)]\<rparr>)
           (data @ [dataRow])
     \<and> c1 = c\<lparr>abort := abort c1\<rparr>
     \<and> k \<le> length row \<and> (k = length row \<or> (abort c1 \<and> even i))
     \<and> events w1 = events w @ map (Sampled i) (take k (columnOrder i (length row)))
     \<and> dataRow = map (sampleAt sc m c) (take k row)
     \<and> clock w1 = clock w + (if mapPresent c then k else 0)
     \<and> (abort c1 \<longleftrightarrow> mapPresent c \<and> clickedIn sc (clock w) k)"
proof (cases "even i")
  case True
  obtain c1 w1 dataRow where s: "scanLeftToRight sc m i 0 row c w [] = (c1, w1, dataRow)"
    by (cases "scanLeftToRight sc m i 0 row c w []")
  from scanLeftToRight_spec [OF s] obtain k where k:
      "k \<le> length row" "k = length row \<or> abort c1"
      "events w1 = events w @ map (Sampled i) [0..<0 + k]"
      "dataRow = [] @ map (sampleAt sc m c) (take k row)"
      "c1 = c\<lparr>abort := abort c1\<rparr>"
      "clock w1 = clock w + (if mapPresent c then k else 0)"
      "abort c1 \<longleftrightarrow> abort c \<or> (mapPresent c \<and> clickedIn sc (clock w) k)"
    by blast
  have t: "take k (columnOrder i (length row)) = [0..<k]"
    using True k(1) by (simp add: columnOrder_def take_upt)
  have r: "scanRows sc m i (row # rest) c w data
       = scanRows sc m (i + 1) rest c1
           (w1\<lparr>events := events w1 @ [Progress (100 * real (i + 1) / real RefinedGridSize)]\<rparr>)
           (data @ [dataRow])"
    using assms True s by (simp add: even_iff_mod_2_eq_zero)
  show ?thesis
    using r k t True assms by (intro exI [of _ c1] exI [of _ w1] exI [of _ dataRow] exI [of _ k]) simp
next
  case False
  obtain c1 w1 dataRow where s: "scanRightToLeft sc m i (rev row) c w [] = (c1, w1, dataRow)"
    by (cases "scanRightToLeft sc m i (rev row) c w []")
  from scanRightToLeft_spec [OF s] have k:
      "events w1 = events w @ map (Sampled i) (rev [0..<length (rev row)])"
      "dataRow = map (sampleAt sc m c) (rev (rev row)) @ []"
      "c1 = c\<lparr>abort := abort c1\<rparr>"
      "clock w1 = clock w + (if mapPresent c then length (rev row) else 0)"
      "abort c1 \<longleftrightarrow> abort c \<or> (mapPresent c \<and> clickedIn sc (clock w) (length (rev row)))"
    by blast+
  have t: "take (length row) (columnOrder i (length row)) = rev [0..<length row]"
    using False by (simp add: columnOrder_def)
  have r: "scanRows sc m i (row # rest) c w data
       = scanRows sc m (i + 1) rest c1
           (w1\<lparr>events := events w1 @ [Progress (100 * real (i + 1) / real RefinedGridSize)]\<rparr>)
           (data @ [dataRow])"
    using assms False s by (simp add: even_iff_mod_2_eq_zero)
  show ?thesis
    using r k t assms
    by (intro exI [of _ c1] exI [of _ w1] exI [of _ dataRow] exI [of _ "length row"]) simp
qed

lemma sampledCells_append [simp]:
  "sampledCells (es @ fs) = sampledCells es @ sampledCells fs"
  by (induction es rule: sampledCells.induct) simp_all

lemma sampledCells_row [simp]: "sampledCells (map (Sampled i) js) = map (Pair i) js"
  by (induction js) simp_all

lemma length_columnOrder [simp]: "length (columnOrder i n) = n"
  by (simp add: columnOrder_def)

declare scanRows.simps [simp del]

lemma scanRows_Nil: "scanRows sc m i [] c w data = (c\<lparr>success := True\<rparr>, w, data)"
  by (simp add: scanRows.simps)

lemma scanRows_frame:
  "scanRows sc m i rows c w data = (c', w', out) \<Longrightarrow>
   c' = c\<lparr>abort := abort c', success := success c'\<rparr>
   \<and> (success c' \<or> (out = [] \<and> abort c'))"
proof (induction rows arbitrary: i c w data)
  case Nil
  then show ?case by (auto simp: scanRows_Nil)
next
  case (Cons row rest)
  show ?case
  proof (cases "abort c")
    case True
    with Cons.prems show ?thesis by (auto simp: scanRows_aborted)
  next
    case False
    from row_step [OF False, of sc m i row rest w data]
    obtain c1 w2 d where q: "scanRows sc m i (row # rest) c w data = scanRows sc m (i + 1) rest c1 w2 d"
      and f: "c1 = c\<lparr>abort := abort c1\<rparr>"
      by blast
    have s: "scanRows sc m (i + 1) rest c1 w2 d = (c', w', out)"
      using q Cons.prems by simp
    from Cons.IH [OF s] have "c' = c1\<lparr>abort := abort c', success := success c'\<rparr>"
      and e: "success c' \<or> (out = [] \<and> abort c')" by blast+
    then have "c' = c\<lparr>abort := abort c', success := success c'\<rparr>"
      by (subst (asm) f) simp
    with e show ?thesis by blast
  qed
qed

lemma abort_update_success: "c1 = c\<lparr>abort := b\<rparr> \<Longrightarrow> success c1 = success c"
  by simp

lemma abort_update_mapPresent: "c1 = c\<lparr>abort := b\<rparr> \<Longrightarrow> mapPresent c1 = mapPresent c"
  by simp

lemma scanRows_success:
  "scanRows sc m i rows c w data = (c', w', out) \<Longrightarrow> success c' \<Longrightarrow> \<not> success c \<Longrightarrow>
   even (i + length rows) \<Longrightarrow>
   events w' = events w @ expectedFrom i rows
   \<and> out = data @ map (map (sampleAt sc m c)) rows"
proof (induction rows arbitrary: i c w data)
  case Nil
  then show ?case by (auto simp: scanRows_Nil)
next
  case (Cons row rest)
  have na: "\<not> abort c"
    using Cons.prems(1,2,3) by (auto simp: scanRows_aborted)
  from row_step [OF na, of sc m i row rest w data]
  obtain c1 w1 dataRow k where
      q: "scanRows sc m i (row # rest) c w data = scanRows sc m (i + 1) rest c1
           (w1\<lparr>events := events w1 @ [Progress (100 * real (i + 1) / real RefinedGridSize)]\<rparr>)
           (data @ [dataRow])"
      and f: "c1 = c\<lparr>abort := abort c1\<rparr>"
      and k: "k \<le> length row" "k = length row \<or> (abort c1 \<and> even i)"
      and e: "events w1 = events w @ map (Sampled i) (take k (columnOrder i (length row)))"
      and d: "dataRow = map (sampleAt sc m c) (take k row)"
    by blast
  have s: "scanRows sc m (i + 1) rest c1
           (w1\<lparr>events := events w1 @ [Progress (100 * real (i + 1) / real RefinedGridSize)]\<rparr>)
           (data @ [dataRow]) = (c', w', out)"
    using q Cons.prems(1) by simp
  have ns: "\<not> success c1" using abort_update_success [OF f] Cons.prems(3) by simp
  have full: "k = length row"
  proof (rule ccontr)
    assume "k \<noteq> length row"
    with k(2) have a: "abort c1" "even i" by simp_all
    with Cons.prems(4) have "rest \<noteq> []" by auto
    with s a(1) have "c' = c1" by (simp add: scanRows_aborted)
    with ns Cons.prems(2) show False by simp
  qed
  have ev: "even (i + 1 + length rest)" using Cons.prems(4) by simp
  from Cons.IH [OF s Cons.prems(2) ns ev]
  have "events w' = (events w1 @ [Progress (100 * real (i + 1) / real RefinedGridSize)])
                    @ expectedFrom (i + 1) rest"
    and "out = (data @ [dataRow]) @ map (map (sampleAt sc m c1)) rest"
    by simp_all
  moreover have "sampleAt sc m c1 = sampleAt sc m c"
    by (subst f) (simp add: fun_eq_iff)
  ultimately show ?case
    using e d full by simp
qed



lemma scanRows_no_click:
  "\<forall>n. \<not> abortClicked sc n \<Longrightarrow> \<not> abort c \<Longrightarrow>
   scanRows sc m i rows c w data = (c', w', out) \<Longrightarrow> success c' \<and> \<not> abort c'"
proof (induction rows arbitrary: i c w data)
  case Nil
  then show ?case by (auto simp: scanRows_Nil)
next
  case (Cons row rest)
  from row_step [OF Cons.prems(2), of sc m i row rest w data]
  obtain c1 w2 d k where
      q: "scanRows sc m i (row # rest) c w data = scanRows sc m (i + 1) rest c1 w2 d"
      and a: "abort c1 \<longleftrightarrow> mapPresent c \<and> clickedIn sc (clock w) k"
    by blast
  have "\<not> abort c1" using a Cons.prems(1) by (simp add: clickedIn_def)
  moreover have "scanRows sc m (i + 1) rest c1 w2 d = (c', w', out)"
    using q Cons.prems(3) by simp
  ultimately show ?case using Cons.IH [OF Cons.prems(1)] by blast
qed

lemma cellsBeforeLastRow_Cons:
  "rest \<noteq> [] \<Longrightarrow> cellsBeforeLastRow (row # rest) = length row + cellsBeforeLastRow rest"
  by (simp add: cellsBeforeLastRow_def)

lemma scanRows_abort_observed:
  "mapPresent c \<Longrightarrow> \<not> success c \<Longrightarrow> clickedIn sc (clock w) (cellsBeforeLastRow rows) \<Longrightarrow>
   scanRows sc m i rows c w data = (c', w', out) \<Longrightarrow>
   \<not> success c' \<and> abort c' \<and> out = []"
proof (induction rows arbitrary: i c w data)
  case Nil
  then show ?case by (simp add: cellsBeforeLastRow_def)
next
  case (Cons row rest)
  have ne: "rest \<noteq> []"
    using Cons.prems(3) by (auto simp: cellsBeforeLastRow_def)
  show ?case
  proof (cases "abort c")
    case True
    with Cons.prems show ?thesis by (auto simp: scanRows_aborted)
  next
    case False
    from row_step [OF False, of sc m i row rest w data]
    obtain c1 w1 dataRow k where
      q: "scanRows sc m i (row # rest) c w data = scanRows sc m (i + 1) rest c1
           (w1\<lparr>events := events w1 @ [Progress (100 * real (i + 1) / real RefinedGridSize)]\<rparr>)
           (data @ [dataRow])"
      and f: "c1 = c\<lparr>abort := abort c1\<rparr>"
      and k: "k \<le> length row" "k = length row \<or> (abort c1 \<and> even i)"
      and t: "clock w1 = clock w + (if mapPresent c then k else 0)"
      and a: "abort c1 \<longleftrightarrow> mapPresent c \<and> clickedIn sc (clock w) k"
      by blast
    let ?w = "w1\<lparr>events := events w1 @ [Progress (100 * real (i + 1) / real RefinedGridSize)]\<rparr>"
    have s: "scanRows sc m (i + 1) rest c1 ?w (data @ [dataRow]) = (c', w', out)"
      using q Cons.prems(4) by simp
    have ns: "\<not> success c1" using abort_update_success [OF f] Cons.prems(2) by simp
    have mp: "mapPresent c1" using abort_update_mapPresent [OF f] Cons.prems(1) by simp
    show ?thesis
    proof (cases "abort c1")
      case True
      with s ne have "c' = c1" "out = []" by (simp_all add: scanRows_aborted)
      with True ns show ?thesis by simp
    next
      case na: False
      with k(2) have full: "k = length row" by simp
      have "\<not> clickedIn sc (clock w) (length row)"
        using a na full Cons.prems(1) by simp
      then have "clickedIn sc (clock w + length row) (cellsBeforeLastRow rest)"
        using Cons.prems(3) ne by (simp add: cellsBeforeLastRow_Cons clickedIn_add)
      then have "clickedIn sc (clock ?w) (cellsBeforeLastRow rest)"
        using t full Cons.prems(1) by simp
      from Cons.IH [OF mp ns this s] show ?thesis .
    qed
  qed
qed

lemma length_gridPointsOf [simp]: "length (gridPointsOf cn) = RefinedGridSize"
  by (simp add: gridPointsOf_def Let_def)

lemma length_gridPointsOf_row:
  "row \<in> set (gridPointsOf cn) \<Longrightarrow> length row = RefinedGridSize"
  by (auto simp: gridPointsOf_def Let_def)



subsection \<open>The order of the scan\<close>


lemma boustrophedon_2:
  "boustrophedon 2
     = [Sampled 0 0, Sampled 0 1, Progress 50, Sampled 1 1, Sampled 1 0, Progress 100]"
  by (simp add: boustrophedon_def upt_conv_Cons)


subsection \<open>The matrix of a completed scan\<close>

text \<open>
  Claim C9. In the matrix of a completed scan the entry in row \<open>i\<close> and column \<open>j\<close> is
  the sample of grid point \<open>(i, j)\<close>, whichever way row \<open>i\<close> was walked: the matrix is
  the one a plain left-to-right, row-major scan yields. (Stated for grids with an even
  number of rows, as the controller's; a completed scan is one the flag \<open>success\<close>,
  cleared before the scan, reports.)
\<close>

theorem serpentine_scan_row_major:
  "(processGridPoints sc gridPoints maxValue c w = (c', w', data)
      \<and> success c' \<and> \<not> success c \<and> even (length gridPoints) \<longrightarrow>
      data = plainRowMajorScan sc maxValue c gridPoints
      \<and> length data = length gridPoints
      \<and> (\<forall>i<length gridPoints. length (data ! i) = length (gridPoints ! i)
            \<and> (\<forall>j<length (gridPoints ! i).
                  data ! i ! j = sampleAt sc maxValue c (gridPoints ! i ! j))))
   \<and> length (gridPointsOf cornerPoints) = RefinedGridSize \<and> even RefinedGridSize"
proof (intro conjI impI)
  assume h: "processGridPoints sc gridPoints maxValue c w = (c', w', data)
      \<and> success c' \<and> \<not> success c \<and> even (length gridPoints)"
  then have s: "scanRows sc maxValue 0 gridPoints c w [] = (c', w', data)"
    by (simp add: processGridPoints_def)
  have ev0: "even (0 + length gridPoints)" using h by simp
  have d: "data = map (map (sampleAt sc maxValue c)) gridPoints"
    using scanRows_success [OF s _ _ ev0] h by simp
  then show "data = plainRowMajorScan sc maxValue c gridPoints"
    by (simp add: plainRowMajorScan_def)
  show "length data = length gridPoints" using d by simp
  show "\<forall>i<length gridPoints. length (data ! i) = length (gridPoints ! i)
            \<and> (\<forall>j<length (gridPoints ! i).
                  data ! i ! j = sampleAt sc maxValue c (gridPoints ! i ! j))"
    using d by simp
next
  show "length (gridPointsOf cornerPoints) = RefinedGridSize" by simp
  show "even RefinedGridSize" by (simp add: RefinedGridSize_def)
qed

lemma distance_vertical: "distance (vec a b h) (vec a b g) = \<bar>h - g\<bar>"
  by (simp add: distance_def length_v_def sub_def)

lemma smallGrid_run:
  "processGridPoints groundScene smallGrid 5 poleBox startWorld
     = (poleBox\<lparr>success := True\<rparr>,
        \<lparr>clock = 4,
         events = [Sampled 0 0, Sampled 0 1, Progress (25 / 6),
                   Sampled 1 1, Sampled 1 0, Progress (25 / 3)]\<rparr>,
        [[1, 2], [3, 4]])"
  by (simp add: processGridPoints_def smallGrid_def scanRows.simps
        moveCameraToPointAndSample_def groundScene_def demoScene_def poleBox_def startWorld_def
        distance_vertical Let_def RefinedGridSize_def)

theorem serpentine_scan_row_major_witness:
  "success (fst (processGridPoints groundScene smallGrid 5 poleBox startWorld))
   \<and> \<not> success poleBox \<and> even (length smallGrid)
   \<and> events (fst (snd (processGridPoints groundScene smallGrid 5 poleBox startWorld)))
       = [Sampled 0 0, Sampled 0 1, Progress (25 / 6), Sampled 1 1, Sampled 1 0, Progress (25 / 3)]
   \<and> snd (snd (processGridPoints groundScene smallGrid 5 poleBox startWorld)) = [[1, 2], [3, 4]]
   \<and> plainRowMajorScan groundScene 5 poleBox smallGrid = [[1, 2], [3, 4]]"
proof -
  have s: "success (poleBox\<lparr>success := True\<rparr>)" "\<not> success poleBox" "even (length smallGrid)"
    by (simp_all add: poleBox_def smallGrid_def)
  from serpentine_scan_row_major
         [where sc = groundScene and gridPoints = smallGrid and maxValue = 5 and c = poleBox
            and w = startWorld and c' = "poleBox\<lparr>success := True\<rparr>"
            and data = "[[1, 2], [3, 4]]"] smallGrid_run s
  have "[[1, 2], [3, 4]] = plainRowMajorScan groundScene 5 poleBox smallGrid" by blast
  then show ?thesis using s by (simp add: smallGrid_run)
qed

subsection \<open>The outcome of a refinement run\<close>

lemma createBox_emptyVolumes [simp]: "createBox sc (c\<lparr>emptyVolumes := g\<rparr>) = createBox sc c"
  by (simp add: createBox_def Let_def split: option.splits)

lemma createBox_mapPresent: "createBox sc c = Inr box \<Longrightarrow> mapPresent c"
  by (auto simp: createBox_def split: option.splits if_splits)

lemma sampleAt_cong: "mapPresent c1 = mapPresent c2 \<Longrightarrow> sampleAt sc m c1 p = sampleAt sc m c2 p"
  by (simp add: sampleAt_def moveCameraToPointAndSample_def Let_def split: option.splits)

lemma sampleAt_range: "0 \<le> m \<Longrightarrow> 0 \<le> sampleAt sc m c p \<and> sampleAt sc m c p \<le> m"
  unfolding sampleAt_def by (rule sample_range)

lemma sum_list_uniform: "\<forall>row \<in> set rows. length row = n \<Longrightarrow> sum_list (map length rows) = length rows * n"
  by (induction rows) simp_all

lemma cellsBeforeLastRow_grid:
  "cellsBeforeLastRow (gridPointsOf cn) = RefinedGridSize * (RefinedGridSize - 1)"
proof -
  have "\<forall>row \<in> set (butlast (gridPointsOf cn)). length row = RefinedGridSize"
    using length_gridPointsOf_row in_set_butlastD by metis
  from sum_list_uniform [OF this] show ?thesis
    by (simp add: cellsBeforeLastRow_def)
qed

lemma plain_scan_is_grid:
  "refinementGrid (plainRowMajorScan sc (maxDistanceOf cn) c (gridPointsOf cn))"
proof -
  have m: "0 \<le> maxDistanceOf cn" by (simp add: maxDistanceOf_def distance_nonneg)
  show ?thesis
    unfolding refinementGrid_def plainRowMajorScan_def
    using sampleAt_range [OF m] by (auto simp: length_gridPointsOf_row)
qed

lemma substractEmptyAreas_frame [simp]:
  "substractEmptyAreas (c\<lparr>refinedVolumeCalculation := r\<rparr>) = substractEmptyAreas c"
  "substractEmptyAreas (c\<lparr>emitted := e\<rparr>) = substractEmptyAreas c"
  by (simp_all add: substractEmptyAreas_def canRefine_def Let_def)

lemma refineCalculation_run:
  assumes h: "canRefine c \<and> createBox sc c = Inr box"
  shows "\<exists>c' w'. refineCalculation sc c w = Inr (c', w')
           \<and> width c' = width c \<and> depth c' = depth c \<and> height c' = height c
           \<and> firstCorner c' = firstCorner c \<and> orientation c' = orientation c
           \<and> orientationComplement c' = orientationComplement c \<and> state c' = state c
           \<and> (\<not> success c' \<longrightarrow>
                emptyVolumes c' = [] \<and> refinedVolumeCalculation c' = 0
                \<and> emitted c' = emitted c)
           \<and> (success c' \<longrightarrow>
                emptyVolumes c'
                  = plainRowMajorScan sc (maxDistanceOf (getCornerPoints sc box)) c
                      (gridPointsOf (getCornerPoints sc box))
                \<and> substractEmptyAreas c' = Inr (refinedVolumeCalculation c'))
           \<and> (clickedIn sc (clock w) (RefinedGridSize * (RefinedGridSize - 1)) \<longrightarrow>
                \<not> success c')
           \<and> ((\<forall>n. \<not> abortClicked sc n) \<longrightarrow> success c')"
proof -
  define cn where "cn = getCornerPoints sc box"
  define c2 where
    "c2 = c\<lparr>emptyVolumes := [], abort := False, refinedVolumeCalculation := 0, success := False\<rparr>"
  obtain c3 w3 data where
    run: "processGridPoints sc (gridPointsOf cn) (maxDistanceOf cn) c2 w = (c3, w3, data)"
    by (cases "processGridPoints sc (gridPointsOf cn) (maxDistanceOf cn) c2 w")
  then have s: "scanRows sc (maxDistanceOf cn) 0 (gridPointsOf cn) c2 w [] = (c3, w3, data)"
    by (simp add: processGridPoints_def)
  from scanRows_frame [OF s]
  have fr: "c3 = c2\<lparr>abort := abort c3, success := success c3\<rparr>" by blast
  have mp: "mapPresent c2" using h createBox_mapPresent [of sc c box] by (simp add: c2_def)
  have fields: "width c3 = width c" "depth c3 = depth c" "height c3 = height c"
      "firstCorner c3 = firstCorner c" "orientation c3 = orientation c"
      "orientationComplement c3 = orientationComplement c" "state c3 = state c"
      "emptyVolumes c3 = []" "refinedVolumeCalculation c3 = 0" "emitted c3 = emitted c"
    by (subst fr, simp add: c2_def)+
  have unf: "refineCalculation sc c w
        = (if success c3 then
             (case substractEmptyAreas (c3\<lparr>emptyVolumes := data\<rparr>) of
                Inl e \<Rightarrow> Inl e
              | Inr refined \<Rightarrow>
                  Inr (emitMeasurementUpdate
                         (c3\<lparr>emptyVolumes := data, refinedVolumeCalculation := refined\<rparr>), w3))
           else Inr (c3\<lparr>emptyVolumes := []\<rparr>, w3))"
    using h run by (simp add: refineCalculation_def Let_def cn_def c2_def)
  have obs: "\<not> success c3" if "clickedIn sc (clock w) (RefinedGridSize * (RefinedGridSize - 1))"
  proof -
    have "clickedIn sc (clock w) (cellsBeforeLastRow (gridPointsOf cn))"
      using that by (simp add: cellsBeforeLastRow_grid)
    from scanRows_abort_observed [OF mp _ this s] show ?thesis by (simp add: c2_def)
  qed
  have quiet: "success c3" if "\<forall>n. \<not> abortClicked sc n"
    using scanRows_no_click [OF that _ s] by (simp add: c2_def)
  show ?thesis
  proof (cases "success c3")
    case False
    then have "refineCalculation sc c w = Inr (c3\<lparr>emptyVolumes := []\<rparr>, w3)"
      using unf by simp
    then show ?thesis
      using False fields quiet
      by (intro exI [of _ "c3\<lparr>emptyVolumes := []\<rparr>"] exI [of _ w3]) auto
  next
    case True
    have ev: "even (0 + length (gridPointsOf cn))" by (simp add: RefinedGridSize_def)
    have ns: "\<not> success c2" by (simp add: c2_def)
    have "data = map (map (sampleAt sc (maxDistanceOf cn) c2)) (gridPointsOf cn)"
      using scanRows_success [OF s True ns ev] by simp
    moreover have "sampleAt sc (maxDistanceOf cn) c2 = sampleAt sc (maxDistanceOf cn) c"
      using sampleAt_cong [of c2 c] by (auto simp: c2_def)
    ultimately have d: "data = plainRowMajorScan sc (maxDistanceOf cn) c (gridPointsOf cn)"
      by (simp add: plainRowMajorScan_def)
    define c4 where "c4 = c3\<lparr>emptyVolumes := data\<rparr>"
    have g: "refinementGrid (emptyVolumes c4)"
      using plain_scan_is_grid [of sc cn c] d by (simp add: c4_def)
    have cr: "canRefine c4" using h fields(7) by (simp add: canRefine_def c4_def)
    define r where "r = max 0 (grossVolume c4 - emptySum c4)"
    have sub: "substractEmptyAreas c4 = Inr r"
      using substractEmptyAreas_grid [OF cr g] by (simp add: r_def)
    define c5 where "c5 = emitMeasurementUpdate (c4\<lparr>refinedVolumeCalculation := r\<rparr>)"
    have res: "refineCalculation sc c w = Inr (c5, w3)"
      using unf True sub by (simp add: c4_def c5_def)
    have f5: "width c5 = width c" "depth c5 = depth c" "height c5 = height c"
      "firstCorner c5 = firstCorner c" "orientation c5 = orientation c"
      "orientationComplement c5 = orientationComplement c" "state c5 = state c"
      "emptyVolumes c5 = data" "refinedVolumeCalculation c5 = r" "success c5"
      using fields True by (simp_all add: c5_def c4_def emitMeasurementUpdate_def)
    have s5: "substractEmptyAreas c5 = Inr r"
      using sub by (simp add: c5_def emitMeasurementUpdate_def)
    show ?thesis
      using res f5 s5 d obs True
      by (intro exI [of _ c5] exI [of _ w3]) (auto simp: cn_def)
  qed
qed

text \<open>
  Claim C1, amended. Outside \<open>VOLUME_DEFINED\<close> a call of \<open>refineCalculation\<close> changes
  nothing. On a finalized box it returns, leaves the box parameters and the state as they
  were, and: a run that ends unsuccessful leaves the grid empty and the refined volume 0,
  whatever they were before, and emits nothing; a run that ends successful stores the
  sampled matrix and the refined volume computed from it; a press of abort during any
  sample before the last row makes the run unsuccessful; a run without a press succeeds.
\<close>

theorem refinement_run_outcome:
  "(\<not> canRefine c \<longrightarrow> refineCalculation sc c w = Inr (c, w))
   \<and> (canRefine c \<and> createBox sc c = Inr box \<longrightarrow>
        (\<exists>c' w'. refineCalculation sc c w = Inr (c', w')
           \<and> width c' = width c \<and> depth c' = depth c \<and> height c' = height c
           \<and> firstCorner c' = firstCorner c \<and> orientation c' = orientation c
           \<and> orientationComplement c' = orientationComplement c \<and> state c' = state c
           \<and> (\<not> success c' \<longrightarrow>
                emptyVolumes c' = [] \<and> refinedVolumeCalculation c' = 0
                \<and> emitted c' = emitted c)
           \<and> (success c' \<longrightarrow>
                emptyVolumes c'
                  = plainRowMajorScan sc (maxDistanceOf (getCornerPoints sc box)) c
                      (gridPointsOf (getCornerPoints sc box))
                \<and> substractEmptyAreas c' = Inr (refinedVolumeCalculation c'))
           \<and> (clickedIn sc (clock w) (RefinedGridSize * (RefinedGridSize - 1)) \<longrightarrow>
                \<not> success c')
           \<and> ((\<forall>n. \<not> abortClicked sc n) \<longrightarrow> success c')))"
proof (intro conjI impI)
  assume "\<not> canRefine c"
  then show "refineCalculation sc c w = Inr (c, w)" by (simp add: refineCalculation_def)
next
  assume "canRefine c \<and> createBox sc c = Inr box"
  then show "\<exists>c' w'. refineCalculation sc c w = Inr (c', w')
           \<and> width c' = width c \<and> depth c' = depth c \<and> height c' = height c
           \<and> firstCorner c' = firstCorner c \<and> orientation c' = orientation c
           \<and> orientationComplement c' = orientationComplement c \<and> state c' = state c
           \<and> (\<not> success c' \<longrightarrow>
                emptyVolumes c' = [] \<and> refinedVolumeCalculation c' = 0
                \<and> emitted c' = emitted c)
           \<and> (success c' \<longrightarrow>
                emptyVolumes c'
                  = plainRowMajorScan sc (maxDistanceOf (getCornerPoints sc box)) c
                      (gridPointsOf (getCornerPoints sc box))
                \<and> substractEmptyAreas c' = Inr (refinedVolumeCalculation c'))
           \<and> (clickedIn sc (clock w) (RefinedGridSize * (RefinedGridSize - 1)) \<longrightarrow>
                \<not> success c')
           \<and> ((\<forall>n. \<not> abortClicked sc n) \<longrightarrow> success c')"
    by (rule refineCalculation_run)
qed

lemma hd_gridPointsOf: "hd (gridPointsOf cn) \<noteq> []"
proof -
  have "gridPointsOf cn \<noteq> []"
  proof
    assume e: "gridPointsOf cn = []"
    have "length (gridPointsOf cn) = 0" unfolding e by simp
    then show False by (simp add: RefinedGridSize_def)
  qed
  then have "hd (gridPointsOf cn) \<in> set (gridPointsOf cn)" by simp
  then have "length (hd (gridPointsOf cn)) = RefinedGridSize" by (rule length_gridPointsOf_row)
  then show ?thesis by (auto simp: RefinedGridSize_def)
qed

lemma scanLeftToRight_aborted:
  "abort c \<Longrightarrow> scanLeftToRight sc m i j row c w d = (c, w, d)"
  by (cases row) simp_all

lemma scanRows_first_click:
  assumes "mapPresent c" "\<not> abort c" "abortClicked sc (clock w)" "2 \<le> length g" "hd g \<noteq> []"
  shows "scanRows sc m 0 g c w []
     = (c\<lparr>abort := True\<rparr>,
        w\<lparr>events := events w @ [Sampled 0 0, Progress (100 / real RefinedGridSize)],
          clock := clock w + 1\<rparr>, [])"
proof -
  obtain p ps r rs where g: "g = (p # ps) # r # rs"
    using assms(4,5) by (cases g; cases "hd g"; cases "tl g") auto
  show ?thesis
    unfolding g using assms(1,2,3)
    by (simp add: scanRows.simps sample_step scanLeftToRight_aborted scanRows_aborted)
qed

text \<open>
  Claim C1, as stated, fails: a refined box (grid of 0.5 m cells, refined volume 450)
  whose next run is aborted during the first sample ends with an empty grid and a refined
  volume of 0.
\<close>

theorem aborted_run_clears_counterexample:
  "emptyVolumes refinedPole = replicate 24 (replicate 24 (1 / 2))
   \<and> refinedVolumeCalculation refinedPole = 450
   \<and> refineCalculation abortingScene refinedPole startWorld
       = Inr (refinedPole\<lparr>emptyVolumes := [], abort := True, success := False,
                          refinedVolumeCalculation := 0\<rparr>,
              \<lparr>clock = 1, events = [Sampled 0 0, Progress (25 / 6)]\<rparr>)"
proof -
  define c2 where "c2 = refinedPole\<lparr>emptyVolumes := [], abort := False,
                                    refinedVolumeCalculation := 0, success := False\<rparr>"
  have b: "createBox abortingScene refinedPole = Inr poleShape"
    by (simp add: createBox_def refinedPole_def poleBox_def poleShape_def abortingScene_def
          demoScene_def)
  have cr: "canRefine refinedPole" by (simp add: canRefine_def refinedPole_def poleBox_def)
  let ?cn = "getCornerPoints abortingScene poleShape"
  have "scanRows abortingScene (maxDistanceOf ?cn) 0 (gridPointsOf ?cn) c2 startWorld []
     = (c2\<lparr>abort := True\<rparr>,
        startWorld\<lparr>events := events startWorld @ [Sampled 0 0, Progress (100 / real RefinedGridSize)],
          clock := clock startWorld + 1\<rparr>, [])"
  proof (rule scanRows_first_click)
    show "mapPresent c2" "\<not> abort c2"
      by (simp_all add: c2_def refinedPole_def poleBox_def)
    show "abortClicked abortingScene (clock startWorld)"
      by (simp add: abortingScene_def startWorld_def)
    show "2 \<le> length (gridPointsOf ?cn)" by (simp add: RefinedGridSize_def)
    show "hd (gridPointsOf ?cn) \<noteq> []" by (rule hd_gridPointsOf)
  qed
  then have run: "processGridPoints abortingScene (gridPointsOf ?cn) (maxDistanceOf ?cn) c2 startWorld
     = (c2\<lparr>abort := True\<rparr>, \<lparr>clock = 1, events = [Sampled 0 0, Progress (25 / 6)]\<rparr>, [])"
    by (simp add: processGridPoints_def startWorld_def RefinedGridSize_def)
  have "refineCalculation abortingScene refinedPole startWorld
       = Inr (c2\<lparr>abort := True, emptyVolumes := []\<rparr>,
              \<lparr>clock = 1, events = [Sampled 0 0, Progress (25 / 6)]\<rparr>)"
    using cr b run [unfolded c2_def] by (simp add: refineCalculation_def Let_def c2_def)
  then show ?thesis
    by (simp add: c2_def refinedPole_def poleBox_def)
qed

theorem refinement_run_outcome_witness:
  "canRefine refinedPole \<and> createBox abortingScene refinedPole = Inr poleShape
   \<and> clickedIn abortingScene (clock startWorld) (RefinedGridSize * (RefinedGridSize - 1))
   \<and> (\<exists>c' w'. refineCalculation abortingScene refinedPole startWorld = Inr (c', w')
          \<and> \<not> success c' \<and> emptyVolumes c' = [] \<and> refinedVolumeCalculation c' = 0
          \<and> width c' = 10 \<and> depth c' = 10 \<and> height c' = 5)
   \<and> (\<exists>c' w'. refineCalculation demoScene refinedPole startWorld = Inr (c', w')
          \<and> success c' \<and> length (emptyVolumes c') = 24
          \<and> substractEmptyAreas c' = Inr (refinedVolumeCalculation c'))
   \<and> \<not> canRefine resizingPole
   \<and> refineCalculation demoScene resizingPole startWorld = Inr (resizingPole, startWorld)"
proof -
  have nr: "\<not> canRefine resizingPole" by (simp add: canRefine_def resizingPole_def)
  have idle: "refineCalculation demoScene resizingPole startWorld = Inr (resizingPole, startWorld)"
    using refinement_run_outcome [where sc = demoScene and c = resizingPole and w = startWorld] nr
    by blast
  have cr: "canRefine refinedPole" by (simp add: canRefine_def refinedPole_def poleBox_def)
  have b: "createBox abortingScene refinedPole = Inr poleShape"
    by (simp add: createBox_def refinedPole_def poleBox_def poleShape_def abortingScene_def
          demoScene_def)
  have b': "createBox demoScene refinedPole = Inr poleShape"
    by (simp add: createBox_def refinedPole_def poleBox_def poleShape_def demoScene_def)
  have "abortClicked abortingScene (clock startWorld + 0)"
    by (simp add: abortingScene_def startWorld_def)
  then have k: "clickedIn abortingScene (clock startWorld) (RefinedGridSize * (RefinedGridSize - 1))"
    unfolding clickedIn_def by (intro exI [of _ 0]) (simp add: RefinedGridSize_def)
  have q: "\<forall>n. \<not> abortClicked demoScene n" by (simp add: demoScene_def)
  have d: "width refinedPole = 10" "depth refinedPole = 10" "height refinedPole = 5"
    by (simp_all add: refinedPole_def poleBox_def)
  have one: "\<exists>c' w'. refineCalculation abortingScene refinedPole startWorld = Inr (c', w')
          \<and> \<not> success c' \<and> emptyVolumes c' = [] \<and> refinedVolumeCalculation c' = 0
          \<and> width c' = 10 \<and> depth c' = 10 \<and> height c' = 5"
    using refinement_run_outcome
      [where sc = abortingScene and c = refinedPole and w = startWorld and box = poleShape]
      cr b k d
    by auto
  from refinement_run_outcome
      [where sc = demoScene and c = refinedPole and w = startWorld and box = poleShape]
      cr b' q
  obtain c' w' where r: "refineCalculation demoScene refinedPole startWorld = Inr (c', w')"
      "success c'"
      "emptyVolumes c'
         = plainRowMajorScan demoScene (maxDistanceOf (getCornerPoints demoScene poleShape))
             refinedPole (gridPointsOf (getCornerPoints demoScene poleShape))"
      "substractEmptyAreas c' = Inr (refinedVolumeCalculation c')"
    by blast
  have "length (emptyVolumes c') = RefinedGridSize"
    unfolding r(3) plainRowMajorScan_def by simp
  then have "length (emptyVolumes c') = 24" by (simp add: RefinedGridSize_def)
  with r have two: "\<exists>c' w'. refineCalculation demoScene refinedPole startWorld = Inr (c', w')
          \<and> success c' \<and> length (emptyVolumes c') = 24
          \<and> substractEmptyAreas c' = Inr (refinedVolumeCalculation c')"
    by blast
  show ?thesis using cr b k one two nr idle by blast
qed

subsection \<open>The cap of a sample\<close>

lemma sample_value:
  "mapPresent c \<Longrightarrow> surfaceBelow sc p = Some q \<Longrightarrow>
   fst (moveCameraToPointAndSample sc p maxValue c w)
     = (if distance p q > maxValue then maxValue else distance p q)"
  by (simp add: moveCameraToPointAndSample_def Let_def)

lemma sampleAt_value:
  "mapPresent c \<Longrightarrow>
   sampleAt sc m c p
     = (case surfaceBelow sc p of
          None \<Rightarrow> 0
        | Some q \<Rightarrow> if distance p q > m then m else distance p q)"
  by (simp add: sampleAt_def moveCameraToPointAndSample_def Let_def split: option.splits)

lemma plainRowMajorScan_nth:
  assumes "i < RefinedGridSize" "j < RefinedGridSize"
  shows "plainRowMajorScan sc m c (gridPointsOf cn) ! i ! j
           = sampleAt sc m c (gridPointsOf cn ! i ! j)"
proof -
  have "gridPointsOf cn ! i \<in> set (gridPointsOf cn)" using assms(1) by simp
  then have "length (gridPointsOf cn ! i) = RefinedGridSize" by (rule length_gridPointsOf_row)
  then show ?thesis using assms by (simp add: plainRowMajorScan_def)
qed

lemma tall_first_point:
  "gridPointsOf (flatCorners tallShape) ! 0 ! 0 = vec (1 / 16) (1 / 12) 6356762"
proof -
  have u: "[0..<RefinedGridSize] = 0 # [1..<RefinedGridSize]"
    by (simp add: RefinedGridSize_def upt_conv_Cons)
  show ?thesis
    unfolding gridPointsOf_def Let_def u
    by (simp add: flatCorners_def tallShape_def interpolate_def add_def sub_def scale_def
          RefinedGridSize_def Let_def)
qed

lemma tall_cap: "distance (cp0 (flatCorners tallShape)) (cp1 (flatCorners tallShape)) = 10"
  using sqrt_square [of 10]
  by (simp add: flatCorners_def tallShape_def Let_def distance_def length_v_def sub_def add_def)

lemma drop_distance: "0 \<le> k \<Longrightarrow> distance p (sub p (vec 0 0 k)) = k"
  using sqrt_square [of k] by (simp add: distance_def length_v_def sub_def)

text \<open>
  Claim C5, amended. A sample taken with a map and a surface point under the grid point
  is the distance between the two when that is at most \<open>maxValue\<close>, and \<open>maxValue\<close>
  when it is more; a sample whose surface query throws, or that is taken without a map, is
  0; so for a non-negative \<open>maxValue\<close> every sample lies between 0 and \<open>maxValue\<close>.
  A refinement run passes as \<open>maxValue\<close> the distance between corner 0 and corner 1 of
  the box (corner 1 is none of the corners 0, 4, 2, 6 of the sampled face, so this is in
  general not the diagonal of that face): a run on a finalized box returns, succeeds when
  abort is never pressed, and every cell of the grid a successful run stores is the
  distance measured at its grid point capped at that corner distance, or 0 where the
  surface query failed.
\<close>

theorem sample_clamped_to_edge:
  "(mapPresent c \<and> surfaceBelow sc p = Some q \<longrightarrow>
      fst (moveCameraToPointAndSample sc p maxValue c w)
        = (if distance p q > maxValue then maxValue else distance p q))
   \<and> (surfaceBelow sc p = None \<or> \<not> mapPresent c \<longrightarrow>
        fst (moveCameraToPointAndSample sc p maxValue c w) = 0)
   \<and> (0 \<le> maxValue \<longrightarrow>
        0 \<le> fst (moveCameraToPointAndSample sc p maxValue c w)
        \<and> fst (moveCameraToPointAndSample sc p maxValue c w) \<le> maxValue)
   \<and> (canRefine c \<and> createBox sc c = Inr box \<longrightarrow>
        (\<exists>c' w'. refineCalculation sc c w = Inr (c', w')
           \<and> ((\<forall>n. \<not> abortClicked sc n) \<longrightarrow> success c')
           \<and> (success c' \<longrightarrow>
                (\<forall>i<RefinedGridSize. \<forall>j<RefinedGridSize.
                   emptyVolumes c' ! i ! j
                     = (case surfaceBelow sc (gridPointsOf (getCornerPoints sc box) ! i ! j) of
                          None \<Rightarrow> 0
                        | Some q \<Rightarrow>
                            if distance (gridPointsOf (getCornerPoints sc box) ! i ! j) q
                                 > distance (cp0 (getCornerPoints sc box))
                                     (cp1 (getCornerPoints sc box))
                            then distance (cp0 (getCornerPoints sc box))
                                   (cp1 (getCornerPoints sc box))
                            else distance (gridPointsOf (getCornerPoints sc box) ! i ! j) q)
                   \<and> 0 \<le> emptyVolumes c' ! i ! j
                   \<and> emptyVolumes c' ! i ! j
                       \<le> distance (cp0 (getCornerPoints sc box))
                            (cp1 (getCornerPoints sc box))))))"
proof (intro conjI impI)
  assume "mapPresent c \<and> surfaceBelow sc p = Some q"
  then show "fst (moveCameraToPointAndSample sc p maxValue c w)
        = (if distance p q > maxValue then maxValue else distance p q)"
    by (simp add: sample_value)
next
  assume "surfaceBelow sc p = None \<or> \<not> mapPresent c"
  then show "fst (moveCameraToPointAndSample sc p maxValue c w) = 0"
    by (rule sample_failure)
next
  assume m: "0 \<le> maxValue"
  from sample_range [OF m]
  show "0 \<le> fst (moveCameraToPointAndSample sc p maxValue c w)"
    "fst (moveCameraToPointAndSample sc p maxValue c w) \<le> maxValue"
    by simp_all
next
  assume h: "canRefine c \<and> createBox sc c = Inr box"
  define K where "K = getCornerPoints sc box"
  define cap where "cap = distance (cp0 K) (cp1 K)"
  have capm: "maxDistanceOf K = cap" by (simp add: cap_def maxDistanceOf_def)
  have cap0: "0 \<le> cap" by (simp add: cap_def distance_nonneg)
  have mp: "mapPresent c" using h createBox_mapPresent by blast
  from refineCalculation_run [OF h, of w]
  obtain c' w' where r: "refineCalculation sc c w = Inr (c', w')"
      "(\<forall>n. \<not> abortClicked sc n) \<longrightarrow> success c'"
      "success c' \<longrightarrow> emptyVolumes c' = plainRowMajorScan sc cap c (gridPointsOf K)"
    unfolding K_def [symmetric] capm by blast
  have cells: "emptyVolumes c' ! i ! j
                 = (case surfaceBelow sc (gridPointsOf K ! i ! j) of
                      None \<Rightarrow> 0
                    | Some q \<Rightarrow> if distance (gridPointsOf K ! i ! j) q > cap then cap
                                else distance (gridPointsOf K ! i ! j) q)
               \<and> 0 \<le> emptyVolumes c' ! i ! j \<and> emptyVolumes c' ! i ! j \<le> cap"
    if s: "success c'" and i: "i < RefinedGridSize" and j: "j < RefinedGridSize" for i j
  proof -
    have e: "emptyVolumes c' ! i ! j = sampleAt sc cap c (gridPointsOf K ! i ! j)"
      using r(3) s plainRowMajorScan_nth [OF i j] by simp
    have v: "sampleAt sc cap c (gridPointsOf K ! i ! j)
               = (case surfaceBelow sc (gridPointsOf K ! i ! j) of
                    None \<Rightarrow> 0
                  | Some q \<Rightarrow> if distance (gridPointsOf K ! i ! j) q > cap then cap
                              else distance (gridPointsOf K ! i ! j) q)"
      by (rule sampleAt_value [OF mp])
    have b: "0 \<le> sampleAt sc cap c (gridPointsOf K ! i ! j)
             \<and> sampleAt sc cap c (gridPointsOf K ! i ! j) \<le> cap"
      by (rule sampleAt_range [OF cap0])
    show ?thesis
      unfolding e using v b by simp
  qed
  show "\<exists>c' w'. refineCalculation sc c w = Inr (c', w')
           \<and> ((\<forall>n. \<not> abortClicked sc n) \<longrightarrow> success c')
           \<and> (success c' \<longrightarrow>
                (\<forall>i<RefinedGridSize. \<forall>j<RefinedGridSize.
                   emptyVolumes c' ! i ! j
                     = (case surfaceBelow sc (gridPointsOf (getCornerPoints sc box) ! i ! j) of
                          None \<Rightarrow> 0
                        | Some q \<Rightarrow>
                            if distance (gridPointsOf (getCornerPoints sc box) ! i ! j) q
                                 > distance (cp0 (getCornerPoints sc box))
                                     (cp1 (getCornerPoints sc box))
                            then distance (cp0 (getCornerPoints sc box))
                                   (cp1 (getCornerPoints sc box))
                            else distance (gridPointsOf (getCornerPoints sc box) ! i ! j) q)
                   \<and> 0 \<le> emptyVolumes c' ! i ! j
                   \<and> emptyVolumes c' ! i ! j
                       \<le> distance (cp0 (getCornerPoints sc box))
                            (cp1 (getCornerPoints sc box))))"
    unfolding K_def [symmetric] cap_def [symmetric]
    using r(1,2) cells by blast
qed


theorem sample_clamped_to_edge_witness:
  "mapPresent tallBox \<and> canRefine tallBox
   \<and> createBox deepScene tallBox = Inr tallShape
   \<and> createBox abyssScene tallBox = Inr tallShape
   \<and> distance (cp0 (getCornerPoints deepScene tallShape))
        (cp1 (getCornerPoints deepScene tallShape)) = 10
   \<and> gridPointsOf (getCornerPoints deepScene tallShape) ! 0 ! 0 = vec (1 / 16) (1 / 12) 6356762
   \<and> surfaceBelow deepScene (vec (1 / 16) (1 / 12) 6356762) = Some (vec (1 / 16) (1 / 12) 6356755)
   \<and> distance (vec (1 / 16) (1 / 12) 6356762) (vec (1 / 16) (1 / 12) 6356755) = 7
   \<and> fst (moveCameraToPointAndSample deepScene (vec (1 / 16) (1 / 12) 6356762) 10 tallBox
            startWorld) = 7
   \<and> surfaceBelow abyssScene (vec (1 / 16) (1 / 12) 6356762) = Some (vec (1 / 16) (1 / 12) 6356750)
   \<and> distance (vec (1 / 16) (1 / 12) 6356762) (vec (1 / 16) (1 / 12) 6356750) = 12
   \<and> fst (moveCameraToPointAndSample abyssScene (vec (1 / 16) (1 / 12) 6356762) 10 tallBox
            startWorld) = 10
   \<and> surfaceBelow silentScene (vec (1 / 16) (1 / 12) 6356762) = None
   \<and> fst (moveCameraToPointAndSample silentScene (vec (1 / 16) (1 / 12) 6356762) 10 tallBox
            startWorld) = 0
   \<and> (\<exists>c' w'. refineCalculation deepScene tallBox startWorld = Inr (c', w')
          \<and> success c' \<and> emptyVolumes c' ! 0 ! 0 = 7)
   \<and> (\<exists>c' w'. refineCalculation abyssScene tallBox startWorld = Inr (c', w')
          \<and> success c' \<and> emptyVolumes c' ! 0 ! 0 = 10)
   \<and> (\<exists>c' w'. refineCalculation silentScene tallBox startWorld = Inr (c', w')
          \<and> success c' \<and> emptyVolumes c' ! 0 ! 0 = 0)"
proof -
  let ?P = "vec (1 / 16) (1 / 12) 6356762"
  have present: "mapPresent tallBox" and cr: "canRefine tallBox"
    by (simp_all add: tallBox_def poleBox_def canRefine_def)
  have bd: "createBox deepScene tallBox = Inr tallShape"
    and ba: "createBox abyssScene tallBox = Inr tallShape"
    and bs: "createBox silentScene tallBox = Inr tallShape"
    by (simp_all add: createBox_def tallBox_def poleBox_def tallShape_def deepScene_def
          abyssScene_def silentScene_def demoScene_def)
  have kd: "getCornerPoints deepScene tallShape = flatCorners tallShape"
    and ka: "getCornerPoints abyssScene tallShape = flatCorners tallShape"
    and ks: "getCornerPoints silentScene tallShape = flatCorners tallShape"
    by (simp_all add: deepScene_def abyssScene_def silentScene_def demoScene_def)
  have sd: "surfaceBelow deepScene ?P = Some (vec (1 / 16) (1 / 12) 6356755)"
    and sa: "surfaceBelow abyssScene ?P = Some (vec (1 / 16) (1 / 12) 6356750)"
    and ss: "surfaceBelow silentScene ?P = None"
    by (simp_all add: deepScene_def abyssScene_def silentScene_def demoScene_def sub_def)
  have d7: "distance ?P (vec (1 / 16) (1 / 12) 6356755) = 7"
    using drop_distance [of 7 ?P] by (simp add: sub_def)
  have d12: "distance ?P (vec (1 / 16) (1 / 12) 6356750) = 12"
    using drop_distance [of 12 ?P] by (simp add: sub_def)
  have qd: "\<forall>n. \<not> abortClicked deepScene n" and qa: "\<forall>n. \<not> abortClicked abyssScene n"
    and qs: "\<forall>n. \<not> abortClicked silentScene n"
    by (simp_all add: deepScene_def abyssScene_def silentScene_def demoScene_def)
  have n0: "0 < RefinedGridSize" by (simp add: RefinedGridSize_def)
  have one: "fst (moveCameraToPointAndSample deepScene ?P 10 tallBox startWorld) = 7"
    using sample_clamped_to_edge
      [where sc = deepScene and c = tallBox and p = ?P and maxValue = 10 and w = startWorld
         and q = "vec (1 / 16) (1 / 12) 6356755"] present sd d7
    by simp
  have two: "fst (moveCameraToPointAndSample abyssScene ?P 10 tallBox startWorld) = 10"
    using sample_clamped_to_edge
      [where sc = abyssScene and c = tallBox and p = ?P and maxValue = 10 and w = startWorld
         and q = "vec (1 / 16) (1 / 12) 6356750"] present sa d12
    by simp
  have three: "fst (moveCameraToPointAndSample silentScene ?P 10 tallBox startWorld) = 0"
    using sample_clamped_to_edge
      [where sc = silentScene and c = tallBox and p = ?P and maxValue = 10 and w = startWorld] ss
    by blast
  let ?cell = "\<lambda>sc c' i j.
        emptyVolumes c' ! i ! j
          = (case surfaceBelow sc (gridPointsOf (getCornerPoints sc tallShape) ! i ! j) of
               None \<Rightarrow> 0
             | Some q \<Rightarrow>
                 if distance (gridPointsOf (getCornerPoints sc tallShape) ! i ! j) q
                      > distance (cp0 (getCornerPoints sc tallShape))
                          (cp1 (getCornerPoints sc tallShape))
                 then distance (cp0 (getCornerPoints sc tallShape))
                        (cp1 (getCornerPoints sc tallShape))
                 else distance (gridPointsOf (getCornerPoints sc tallShape) ! i ! j) q)
        \<and> 0 \<le> emptyVolumes c' ! i ! j
        \<and> emptyVolumes c' ! i ! j
            \<le> distance (cp0 (getCornerPoints sc tallShape))
                 (cp1 (getCornerPoints sc tallShape))"
  have four: "\<exists>c' w'. refineCalculation deepScene tallBox startWorld = Inr (c', w')
          \<and> success c' \<and> emptyVolumes c' ! 0 ! 0 = 7"
  proof -
    note t = sample_clamped_to_edge
      [where sc = deepScene and c = tallBox and w = startWorld and box = tallShape,
         THEN conjunct2, THEN conjunct2, THEN conjunct2, THEN mp, OF conjI [OF cr bd]]
    from t obtain c1 w1 where
      a: "refineCalculation deepScene tallBox startWorld = Inr (c1, w1)"
      and b: "(\<forall>n. \<not> abortClicked deepScene n) \<longrightarrow> success c1"
      and c: "success c1 \<longrightarrow>
                (\<forall>i<RefinedGridSize. \<forall>j<RefinedGridSize. ?cell deepScene c1 i j)"
      by (elim exE conjE) (rule that; assumption)
    have s: "success c1" using b qd by simp
    have "?cell deepScene c1 0 0" by (rule c [rule_format, OF s n0 n0])
    then have "emptyVolumes c1 ! 0 ! 0 = 7"
      by (simp add: kd tall_first_point tall_cap sd d7)
    with a s show ?thesis by blast
  qed
  have five: "\<exists>c' w'. refineCalculation abyssScene tallBox startWorld = Inr (c', w')
          \<and> success c' \<and> emptyVolumes c' ! 0 ! 0 = 10"
  proof -
    note t = sample_clamped_to_edge
      [where sc = abyssScene and c = tallBox and w = startWorld and box = tallShape,
         THEN conjunct2, THEN conjunct2, THEN conjunct2, THEN mp, OF conjI [OF cr ba]]
    from t obtain c2 w2 where
      a: "refineCalculation abyssScene tallBox startWorld = Inr (c2, w2)"
      and b: "(\<forall>n. \<not> abortClicked abyssScene n) \<longrightarrow> success c2"
      and c: "success c2 \<longrightarrow>
                (\<forall>i<RefinedGridSize. \<forall>j<RefinedGridSize. ?cell abyssScene c2 i j)"
      by (elim exE conjE) (rule that; assumption)
    have s: "success c2" using b qa by simp
    have "?cell abyssScene c2 0 0" by (rule c [rule_format, OF s n0 n0])
    then have "emptyVolumes c2 ! 0 ! 0 = 10"
      by (simp add: ka tall_first_point tall_cap sa d12)
    with a s show ?thesis by blast
  qed
  have six: "\<exists>c' w'. refineCalculation silentScene tallBox startWorld = Inr (c', w')
          \<and> success c' \<and> emptyVolumes c' ! 0 ! 0 = 0"
  proof -
    note t = sample_clamped_to_edge
      [where sc = silentScene and c = tallBox and w = startWorld and box = tallShape,
         THEN conjunct2, THEN conjunct2, THEN conjunct2, THEN mp, OF conjI [OF cr bs]]
    from t obtain c3 w3 where
      a: "refineCalculation silentScene tallBox startWorld = Inr (c3, w3)"
      and b: "(\<forall>n. \<not> abortClicked silentScene n) \<longrightarrow> success c3"
      and c: "success c3 \<longrightarrow>
                (\<forall>i<RefinedGridSize. \<forall>j<RefinedGridSize. ?cell silentScene c3 i j)"
      by (elim exE conjE) (rule that; assumption)
    have s: "success c3" using b qs by simp
    have "?cell silentScene c3 0 0" by (rule c [rule_format, OF s n0 n0])
    then have "emptyVolumes c3 ! 0 ! 0 = 0"
      by (simp add: ks tall_first_point ss)
    with a s show ?thesis by blast
  qed
  have cap: "distance (cp0 (getCornerPoints deepScene tallShape))
        (cp1 (getCornerPoints deepScene tallShape)) = 10"
    by (simp add: kd tall_cap)
  have g: "gridPointsOf (getCornerPoints deepScene tallShape) ! 0 ! 0 = ?P"
    by (simp add: kd tall_first_point)
  show ?thesis
    using present cr bd ba cap g sd d7 one sa d12 two ss three four five six by blast
qed


subsection \<open>The refined volume a snapshot reports\<close>





















end
